theory Spec2Isabelle
  imports Main "HOL-Library.Word" "HOL-Library.Multiset"
begin

unbundle bit_operations_syntax

chapter \<open>PipeRelay: signing, subscription matching, retry policy, worker, ingest\<close>

text \<open>
  A shallow embedding of the delivery pipeline of PipeRelay (Go).  Go strings and byte
  slices are byte sequences: they are modelled as \<open>string\<close> (\<open>char list\<close>, one
  \<open>char\<close> per byte).  Wall-clock readings, generated identifiers, random draws, HTTP
  results and storage faults come from the environment and are explicit arguments.
\<close>

section \<open>Package signing\<close>

subsection \<open>SHA-256 (crypto/sha256, FIPS 180-4) and HMAC (crypto/hmac, RFC 2104)\<close>

text \<open>
  \<open>Sign\<close> and \<open>Verify\<close> call \<open>hmac.New(sha256.New, secret)\<close> of the Go standard
  library.  The two library functions are written out here so that the model is closed.
\<close>

type_synonym byte = "8 word"
type_synonym u32 = "32 word"

definition rotr :: "nat \<Rightarrow> u32 \<Rightarrow> u32" where
  "rotr n x = (drop_bit n x) OR (push_bit (32 - n) x)"

definition Ch :: "u32 \<Rightarrow> u32 \<Rightarrow> u32 \<Rightarrow> u32" where
  "Ch x y z = (x AND y) XOR (NOT x AND z)"

definition Maj :: "u32 \<Rightarrow> u32 \<Rightarrow> u32 \<Rightarrow> u32" where
  "Maj x y z = (x AND y) XOR (x AND z) XOR (y AND z)"

definition bsig0 :: "u32 \<Rightarrow> u32" where
  "bsig0 x = rotr 2 x XOR rotr 13 x XOR rotr 22 x"

definition bsig1 :: "u32 \<Rightarrow> u32" where
  "bsig1 x = rotr 6 x XOR rotr 11 x XOR rotr 25 x"

definition ssig0 :: "u32 \<Rightarrow> u32" where
  "ssig0 x = rotr 7 x XOR rotr 18 x XOR drop_bit 3 x"

definition ssig1 :: "u32 \<Rightarrow> u32" where
  "ssig1 x = rotr 17 x XOR rotr 19 x XOR drop_bit 10 x"

text \<open>The round constants and (in \<open>sha256\<close>) the initial hash value, in decimal.\<close>

definition K256 :: "u32 list" where
  "K256 = [
   1116352408, 1899447441, 3049323471, 3921009573, 961987163, 1508970993, 2453635748, 2870763221,
   3624381080, 310598401, 607225278, 1426881987, 1925078388, 2162078206, 2614888103, 3248222580,
   3835390401, 4022224774, 264347078, 604807628, 770255983, 1249150122, 1555081692, 1996064986,
   2554220882, 2821834349, 2952996808, 3210313671, 3336571891, 3584528711, 113926993, 338241895,
   666307205, 773529912, 1294757372, 1396182291, 1695183700, 1986661051, 2177026350, 2456956037,
   2730485921, 2820302411, 3259730800, 3345764771, 3516065817, 3600352804, 4094571909, 275423344,
   430227734, 506948616, 659060556, 883997877, 958139571, 1322822218, 1537002063, 1747873779,
   1955562222, 2024104815, 2227730452, 2361852424, 2428436474, 2756734187, 3204031479, 3329325298]"

text \<open>Big-endian packing of four bytes, and unpacking of 32- and 64-bit words.\<close>

fun be32 :: "byte list \<Rightarrow> u32" where
  "be32 [] = 0"
| "be32 (b # bs) = push_bit (8 * length bs) (ucast b) OR be32 bs"

definition u32_bytes :: "u32 \<Rightarrow> byte list" where
  "u32_bytes w = [ucast (drop_bit 24 w), ucast (drop_bit 16 w), ucast (drop_bit 8 w), ucast w]"

definition u64_bytes :: "64 word \<Rightarrow> byte list" where
  "u64_bytes w = map (\<lambda>i. ucast (drop_bit (8 * (7 - i)) w)) [0..<8]"

fun words16 :: "nat \<Rightarrow> byte list \<Rightarrow> u32 list" where
  "words16 0 bs = []"
| "words16 (Suc n) bs = be32 (take 4 bs) # words16 n (drop 4 bs)"

fun blocks :: "nat \<Rightarrow> byte list \<Rightarrow> byte list list" where
  "blocks 0 bs = []"
| "blocks (Suc n) bs = take 64 bs # blocks n (drop 64 bs)"

text \<open>Padding: one bit, zeros up to 56 mod 64, then the bit length on 64 bits.\<close>

definition sha_pad :: "byte list \<Rightarrow> byte list" where
  "sha_pad m =
     m @ [0x80] @ replicate ((119 - length m mod 64) mod 64) 0 @ u64_bytes (of_nat (8 * length m))"

fun expand :: "nat \<Rightarrow> u32 list \<Rightarrow> u32 list" where
  "expand 0 w = w"
| "expand (Suc n) w =
     (let l = length w
      in expand n (w @ [ssig1 (w ! (l - 2)) + w ! (l - 7) + ssig0 (w ! (l - 15)) + w ! (l - 16)]))"

type_synonym hstate = "u32 \<times> u32 \<times> u32 \<times> u32 \<times> u32 \<times> u32 \<times> u32 \<times> u32"

fun round256 :: "hstate \<Rightarrow> u32 \<times> u32 \<Rightarrow> hstate" where
  "round256 (a, b, c, d, e, f, g, h) (k, w) =
     (let t1 = h + bsig1 e + Ch e f g + k + w;
          t2 = bsig0 a + Maj a b c
      in (t1 + t2, a, b, c, d + t1, e, f, g))"

fun compress :: "hstate \<Rightarrow> byte list \<Rightarrow> hstate" where
  "compress (a, b, c, d, e, f, g, h) blk =
     (case foldl round256 (a, b, c, d, e, f, g, h) (zip K256 (expand 48 (words16 16 blk))) of
        (a', b', c', d', e', f', g', h') \<Rightarrow>
          (a + a', b + b', c + c', d + d', e + e', f + f', g + g', h + h'))"

definition sha256 :: "byte list \<Rightarrow> byte list" where
  "sha256 m =
     (let p = sha_pad m
      in case foldl compress (1779033703, 3144134277, 1013904242, 2773480762,
                               1359893119, 2600822924, 528734635, 1541459225)
                              (blocks (length p div 64) p) of
           (a, b, c, d, e, f, g, h) \<Rightarrow> concat (map u32_bytes [a, b, c, d, e, f, g, h]))"

text \<open>
  HMAC with block size 64: a key longer than a block is hashed first, a shorter one is
  padded with zero bytes.
\<close>

definition hmac_key :: "byte list \<Rightarrow> byte list" where
  "hmac_key key =
     (let k = (if length key > 64 then sha256 key else key)
      in k @ replicate (64 - length k) 0)"

definition hmac_sha256 :: "byte list \<Rightarrow> byte list \<Rightarrow> byte list" where
  "hmac_sha256 key msg =
     (let k = hmac_key key
      in sha256 (map (\<lambda>b. b XOR 0x5c) k @ sha256 (map (\<lambda>b. b XOR 0x36) k @ msg)))"

subsection \<open>Formatting helpers (encoding/hex, fmt)\<close>

definition hexdigit :: "nat \<Rightarrow> char" where
  "hexdigit n = ''0123456789abcdef'' ! n"

text \<open>\<open>hex.EncodeToString\<close>: two lowercase digits per byte, high nibble first.\<close>

definition EncodeToString :: "byte list \<Rightarrow> string" where
  "EncodeToString bs = concat (map (\<lambda>b. [hexdigit (unat b div 16), hexdigit (unat b mod 16)]) bs)"

definition bytes_of :: "string \<Rightarrow> byte list" where
  "bytes_of s = map of_char s"

text \<open>The decimal digits of a non-negative integer, most significant first.\<close>

function decimal :: "int \<Rightarrow> string" where
  "decimal n =
     (if n < 10 then [''0123456789'' ! nat n]
      else decimal (n div 10) @ [''0123456789'' ! nat (n mod 10)])"
  by pat_completeness auto
termination
  by (relation "measure nat") auto

text \<open>The verb \<open>%d\<close> of \<open>fmt.Sprintf\<close> on an \<open>int64\<close>.\<close>

definition Sprintf_d :: "int \<Rightarrow> string" where
  "Sprintf_d i = (if i < 0 then CHR ''-'' # decimal (- i) else decimal i)"

subsection \<open>Sign and Verify\<close>

text \<open>
  \<open>Sign\<close> reads the clock (\<open>time.Now().Unix()\<close>); the reading is the first argument.
  The timestamp is an \<open>int64\<close> of seconds; it is an \<open>int\<close> here, no arithmetic is done
  on it.
\<close>

definition Sign :: "int \<Rightarrow> string \<Rightarrow> string \<Rightarrow> string \<times> int" where
  "Sign unixNow secret payload =
     (let timestamp = unixNow;
          toSign = Sprintf_d timestamp @ ''.'' @ payload;
          sig = EncodeToString (hmac_sha256 (bytes_of secret) (bytes_of toSign))
      in (''v1='' @ sig, timestamp))"

text \<open>\<open>hmac.Equal\<close> is equality of the two byte slices, computed in constant time.\<close>

definition Verify :: "string \<Rightarrow> string \<Rightarrow> int \<Rightarrow> string \<Rightarrow> bool" where
  "Verify secret payload timestamp signature =
     (let toSign = Sprintf_d timestamp @ ''.'' @ payload;
          expected = ''v1='' @ EncodeToString (hmac_sha256 (bytes_of secret) (bytes_of toSign))
      in expected = signature)"

section \<open>Package storage: subscription matching\<close>

text \<open>\<open>strings.HasSuffix\<close>, \<open>strings.TrimSuffix\<close> and \<open>strings.HasPrefix\<close>.\<close>

definition HasSuffix :: "string \<Rightarrow> string \<Rightarrow> bool" where
  "HasSuffix s suffix =
     (length s \<ge> length suffix \<and> drop (length s - length suffix) s = suffix)"

definition TrimSuffix :: "string \<Rightarrow> string \<Rightarrow> string" where
  "TrimSuffix s suffix = (if HasSuffix s suffix then take (length s - length suffix) s else s)"

definition HasPrefix :: "string \<Rightarrow> string \<Rightarrow> bool" where
  "HasPrefix s prefix = (length s \<ge> length prefix \<and> take (length prefix) s = prefix)"

text \<open>The loop of \<open>matchesEventType\<close> over the subscriptions, in the order of its tests.\<close>

fun matchesEventType_loop :: "string list \<Rightarrow> string \<Rightarrow> bool" where
  "matchesEventType_loop [] eventType = False"
| "matchesEventType_loop (sub # subs) eventType =
     (if sub = eventType then True
      else if HasSuffix sub ''.*'' \<and> HasPrefix eventType (TrimSuffix sub ''.*'' @ ''.'') then True
      else if sub = ''*'' then True
      else matchesEventType_loop subs eventType)"

definition matchesEventType :: "string list \<Rightarrow> string \<Rightarrow> bool" where
  "matchesEventType subscribed eventType =
     (if length subscribed = 0 then True else matchesEventType_loop subscribed eventType)"

section \<open>Package models\<close>

text \<open>
  Instants (\<open>time.Time\<close>) and durations are integers in one unit (nanoseconds), \<open>Add\<close>
  is addition.  Go's \<open>int\<close> is 64 bits wide; counters and status codes are modelled as
  \<open>int\<close>: an attempt counter grows by one per HTTP attempt and stays far from the bound.
  A slice that may be \<open>nil\<close> is an optional list, \<open>None\<close> being \<open>nil\<close>.
\<close>

type_synonym 'a slice = "'a list option"

definition elems :: "'a slice \<Rightarrow> 'a list" where
  "elems xs = (case xs of None \<Rightarrow> [] | Some ys \<Rightarrow> ys)"

record Application =
  appID :: string
  appName :: string
  appAPIKey :: string
  appCreatedAt :: int
  appUpdatedAt :: int

record Endpoint =
  epID :: string
  epAppID :: string
  epURL :: string
  epDescription :: string
  epSecret :: string
  epEventTypes :: "string slice"
  epRateLimit :: int
  epMetadata :: "(string \<times> string) list option"
  epActive :: bool
  epCreatedAt :: int
  epUpdatedAt :: int

record Message =
  msgID :: string
  msgAppID :: string
  msgEventType :: string
  msgPayload :: string
  msgCreatedAt :: int

datatype DeliveryStatus = DeliveryPending | DeliverySuccess | DeliveryRetrying | DeliveryFailed

record Delivery =
  dlvID :: string
  dlvMessageID :: string
  dlvEndpointID :: string
  dlvStatus :: DeliveryStatus
  dlvAttemptCount :: int
  dlvNextRetryAt :: "int option"
  dlvCreatedAt :: int
  dlvUpdatedAt :: int

text \<open>\<open>attCreatedAt\<close> is the instant that the source renders with \<open>time.RFC3339\<close>.\<close>

record Attempt =
  attID :: string
  attDeliveryID :: string
  attAttemptNumber :: int
  attStatusCode :: int
  attResponseBody :: string
  attLatencyMs :: int
  attError :: string
  attCreatedAt :: int

text \<open>\<open>NewSecret\<close>: forty draws \<open>rand.Int(rand.Reader, 62)\<close> index the charset.\<close>

definition charset :: string where
  "charset = ''abcdefghijklmnopqrstuvwxyzABCDEFGHIJKLMNOPQRSTUVWXYZ0123456789''"

definition NewSecret :: "(nat \<Rightarrow> nat) \<Rightarrow> string" where
  "NewSecret draw = ''whsec_'' @ map (\<lambda>i. charset ! draw i) [0..<40]"

text \<open>The ASCII letters and digits.\<close>

definition alphanumeric :: "char \<Rightarrow> bool" where
  "alphanumeric c =
     (let n = (of_char c :: nat)
      in (97 \<le> n \<and> n \<le> 122) \<or> (65 \<le> n \<and> n \<le> 90) \<or> (48 \<le> n \<and> n \<le> 57))"

section \<open>Package storage: the SQLite store\<close>

text \<open>
  The tables the delivery pipeline uses, each a list of rows in insertion order.  Every
  statement can fail (I/O error, busy timeout, constraint violation): the flag \<open>fault\<close>
  of an operation says that the driver returned an error, and the tables are then
  unchanged.

  \<open>ORDER BY created_at\<close> does not say in which order rows with equal \<open>created_at\<close>
  come out; SQLite decides (by the index it scans, for instance).  A query with such a
  clause takes that decision as its argument \<open>tie\<close>, a rank of the rows: rows with equal
  \<open>created_at\<close> come out by their rank.  Every order that agrees with \<open>created_at\<close> is
  the result of some rank.
\<close>

record Store =
  endpoints :: "Endpoint list"
  messages :: "Message list"
  deliveries :: "Delivery list"
  attempts :: "Attempt list"

datatype error = StoreError

definition CreateEndpoint :: "bool \<Rightarrow> Store \<Rightarrow> Endpoint \<Rightarrow> error + Store" where
  "CreateEndpoint fault s ep =
     (if fault then Inl StoreError else Inr (s\<lparr>endpoints := endpoints s @ [ep]\<rparr>))"

definition GetEndpoint :: "bool \<Rightarrow> Store \<Rightarrow> string \<Rightarrow> error + Endpoint option" where
  "GetEndpoint fault s ident =
     (if fault then Inl StoreError else Inr (find (\<lambda>ep. epID ep = ident) (endpoints s)))"

definition UpdateEndpoint :: "bool \<Rightarrow> int \<Rightarrow> Store \<Rightarrow> Endpoint \<Rightarrow> error + Store" where
  "UpdateEndpoint fault now s ep =
     (if fault then Inl StoreError
      else Inr (s\<lparr>endpoints :=
        map (\<lambda>r. if epID r = epID ep
                  then r\<lparr>epURL := epURL ep, epDescription := epDescription ep,
                         epEventTypes := epEventTypes ep, epRateLimit := epRateLimit ep,
                         epMetadata := epMetadata ep, epActive := epActive ep,
                         epUpdatedAt := now\<rparr>
                  else r) (endpoints s)\<rparr>))"

definition ToggleEndpoint :: "bool \<Rightarrow> int \<Rightarrow> Store \<Rightarrow> string \<Rightarrow> bool \<Rightarrow> error + Store" where
  "ToggleEndpoint fault now s ident active =
     (if fault then Inl StoreError
      else Inr (s\<lparr>endpoints :=
        map (\<lambda>r. if epID r = ident then r\<lparr>epActive := active, epUpdatedAt := now\<rparr> else r)
            (endpoints s)\<rparr>))"

text \<open>
  Deleting a row deletes the rows that reference it (\<open>ON DELETE CASCADE\<close>, foreign keys
  are switched on when the database is opened).
\<close>

definition cascade :: "Store \<Rightarrow> Store" where
  "cascade s =
     (let ds = filter (\<lambda>d. dlvMessageID d \<in> msgID ` set (messages s)
                          \<and> dlvEndpointID d \<in> epID ` set (endpoints s)) (deliveries s)
      in s\<lparr>deliveries := ds,
            attempts := filter (\<lambda>a. attDeliveryID a \<in> dlvID ` set ds) (attempts s)\<rparr>)"

definition DeleteEndpoint :: "bool \<Rightarrow> Store \<Rightarrow> string \<Rightarrow> error + Store" where
  "DeleteEndpoint fault s ident =
     (if fault then Inl StoreError
      else Inr (cascade (s\<lparr>endpoints := filter (\<lambda>ep. epID ep \<noteq> ident) (endpoints s)\<rparr>)))"

definition DeleteApplication :: "bool \<Rightarrow> Store \<Rightarrow> string \<Rightarrow> error + Store" where
  "DeleteApplication fault s ident =
     (if fault then Inl StoreError
      else Inr (cascade (s\<lparr>endpoints := filter (\<lambda>ep. epAppID ep \<noteq> ident) (endpoints s),
                            messages := filter (\<lambda>m. msgAppID m \<noteq> ident) (messages s)\<rparr>)))"

definition GetEndpointsByEventType ::
    "bool \<Rightarrow> (Endpoint \<Rightarrow> nat) \<Rightarrow> Store \<Rightarrow> string \<Rightarrow> string
      \<Rightarrow> error + Endpoint list" where
  "GetEndpointsByEventType fault tie s app eventType =
     (if fault then Inl StoreError
      else Inr (filter (\<lambda>ep. matchesEventType (elems (epEventTypes ep)) eventType)
                 (rev (sort_key epCreatedAt (sort_key tie
                    (filter (\<lambda>ep. epAppID ep = app \<and> epActive ep) (endpoints s)))))))"

definition CreateMessage :: "bool \<Rightarrow> Store \<Rightarrow> Message \<Rightarrow> error + Store" where
  "CreateMessage fault s msg =
     (if fault then Inl StoreError else Inr (s\<lparr>messages := messages s @ [msg]\<rparr>))"

definition GetMessage :: "bool \<Rightarrow> Store \<Rightarrow> string \<Rightarrow> error + Message option" where
  "GetMessage fault s ident =
     (if fault then Inl StoreError else Inr (find (\<lambda>m. msgID m = ident) (messages s)))"

definition CreateDelivery :: "bool \<Rightarrow> Store \<Rightarrow> Delivery \<Rightarrow> error + Store" where
  "CreateDelivery fault s d =
     (if fault then Inl StoreError else Inr (s\<lparr>deliveries := deliveries s @ [d]\<rparr>))"

definition GetDeliveriesByMessage ::
    "bool \<Rightarrow> (Delivery \<Rightarrow> nat) \<Rightarrow> Store \<Rightarrow> string \<Rightarrow> error + Delivery list" where
  "GetDeliveriesByMessage fault tie s messageID =
     (if fault then Inl StoreError
      else Inr (sort_key dlvCreatedAt (sort_key tie
                  (filter (\<lambda>d. dlvMessageID d = messageID) (deliveries s)))))"

text \<open>
  \<open>UpdateDelivery\<close> writes status, attempt count and next retry of the rows with the
  identifier of \<open>d\<close>, and stamps them with the clock reading \<open>now\<close>.
\<close>

definition UpdateDelivery :: "bool \<Rightarrow> int \<Rightarrow> Store \<Rightarrow> Delivery \<Rightarrow> error + Store" where
  "UpdateDelivery fault now s d =
     (if fault then Inl StoreError
      else Inr (s\<lparr>deliveries :=
        map (\<lambda>r. if dlvID r = dlvID d
                  then r\<lparr>dlvStatus := dlvStatus d, dlvAttemptCount := dlvAttemptCount d,
                         dlvNextRetryAt := dlvNextRetryAt d, dlvUpdatedAt := now\<rparr>
                  else r) (deliveries s)\<rparr>))"

text \<open>
  The \<open>WHERE\<close> clause of \<open>GetPendingDeliveries\<close>, and the query.  In SQLite a negative
  \<open>LIMIT\<close> puts no upper bound on the number of rows returned.
\<close>

definition due :: "int \<Rightarrow> Delivery \<Rightarrow> bool" where
  "due now d =
     ((dlvStatus d = DeliveryPending \<or> dlvStatus d = DeliveryRetrying)
      \<and> (case dlvNextRetryAt d of None \<Rightarrow> True | Some t \<Rightarrow> t \<le> now))"

definition GetPendingDeliveries ::
    "bool \<Rightarrow> (Delivery \<Rightarrow> nat) \<Rightarrow> Store \<Rightarrow> int \<Rightarrow> int \<Rightarrow> error + Delivery list" where
  "GetPendingDeliveries fault tie s now limit =
     (if fault then Inl StoreError
      else let rows = sort_key dlvCreatedAt (sort_key tie (filter (due now) (deliveries s)))
           in Inr (if limit < 0 then rows else take (nat limit) rows))"

definition CreateAttempt :: "bool \<Rightarrow> Store \<Rightarrow> Attempt \<Rightarrow> error + Store" where
  "CreateAttempt fault s a =
     (if fault then Inl StoreError else Inr (s\<lparr>attempts := attempts s @ [a]\<rparr>))"

section \<open>Package delivery: retry policy and worker\<close>

text \<open>\<open>NextRetryTime\<close> reads the clock; the reading is the first argument.\<close>

definition NextRetryTime :: "int \<Rightarrow> int \<Rightarrow> int list \<Rightarrow> int option" where
  "NextRetryTime now attemptCount schedule =
     (let idx = attemptCount - 1
      in if idx < 0 \<or> idx \<ge> int (length schedule) then None
         else Some (now + schedule ! nat idx))"

definition IsSuccess :: "int \<Rightarrow> bool" where
  "IsSuccess statusCode = (statusCode \<ge> 200 \<and> statusCode < 300)"

record SendResult =
  StatusCode :: int
  ResponseBody :: string
  LatencyMs :: int
  Error :: string

text \<open>
  What one call of \<open>Worker.Process\<close> takes from its environment: the faults of its four
  store calls, the result of \<open>Sender.Send\<close>, the identifier of the attempt, and the clock
  readings of \<open>Process\<close>, of \<open>NextRetryTime\<close> and of \<open>UpdateDelivery\<close>.
\<close>

record ProcessEnv =
  peGetMessageFault :: bool
  peGetEndpointFault :: bool
  peSendResult :: SendResult
  peAttemptID :: string
  peNow :: int
  peCreateAttemptFault :: bool
  peRetryNow :: int
  peUpdateFault :: bool
  peUpdateNow :: int

datatype 'a outcome = Return 'a | Panic 'a

fun store_of :: "'a outcome \<Rightarrow> 'a" where
  "store_of (Return s) = s"
| "store_of (Panic s) = s"

text \<open>
  The classification at the end of \<open>Process\<close>, applied to the delivery whose attempt count
  is already incremented.  In the last branch the log statement evaluates
  \<open>*d.NextRetryAt\<close>: when \<open>NextRetryTime\<close> returned \<open>nil\<close> this is a nil dereference and
  the goroutine panics before \<open>UpdateDelivery\<close> is reached (result \<open>None\<close>).
\<close>

definition Process_classify :: "int \<Rightarrow> int list \<Rightarrow> int \<Rightarrow> SendResult \<Rightarrow> Delivery \<Rightarrow> Delivery option" where
  "Process_classify maxAttempts retrySchedule retryNow result d =
     (if Error result = [] \<and> IsSuccess (StatusCode result) then
        Some (d\<lparr>dlvStatus := DeliverySuccess, dlvNextRetryAt := None\<rparr>)
      else if dlvAttemptCount d \<ge> maxAttempts then
        Some (d\<lparr>dlvStatus := DeliveryFailed, dlvNextRetryAt := None\<rparr>)
      else
        (case NextRetryTime retryNow (dlvAttemptCount d) retrySchedule of
           None \<Rightarrow> None
         | Some t \<Rightarrow> Some (d\<lparr>dlvStatus := DeliveryRetrying, dlvNextRetryAt := Some t\<rparr>)))"

text \<open>
  \<open>Worker.Process\<close> on a copy \<open>d0\<close> of a delivery row.  A failed \<open>CreateAttempt\<close> or
  \<open>UpdateDelivery\<close> is logged and otherwise ignored.
\<close>

definition Process :: "int \<Rightarrow> int list \<Rightarrow> ProcessEnv \<Rightarrow> Store \<Rightarrow> Delivery \<Rightarrow> Store outcome" where
  "Process maxAttempts retrySchedule env s d0 =
     (case GetMessage (peGetMessageFault env) s (dlvMessageID d0) of
        Inl err \<Rightarrow> Return s
      | Inr None \<Rightarrow> Return s
      | Inr (Some msg) \<Rightarrow>
          (case GetEndpoint (peGetEndpointFault env) s (dlvEndpointID d0) of
             Inl err \<Rightarrow> Return s
           | Inr None \<Rightarrow> Return s
           | Inr (Some ep) \<Rightarrow>
               if \<not> epActive ep then Return s
               else
                 let result = peSendResult env;
                     d = d0\<lparr>dlvAttemptCount := dlvAttemptCount d0 + 1\<rparr>;
                     attempt = \<lparr>attID = peAttemptID env, attDeliveryID = dlvID d,
                                attAttemptNumber = dlvAttemptCount d,
                                attStatusCode = StatusCode result,
                                attResponseBody = ResponseBody result,
                                attLatencyMs = LatencyMs result,
                                attError = Error result,
                                attCreatedAt = peNow env\<rparr>;
                     s1 = (case CreateAttempt (peCreateAttemptFault env) s attempt of
                             Inl err \<Rightarrow> s | Inr s' \<Rightarrow> s')
                 in case Process_classify maxAttempts retrySchedule (peRetryNow env) result d of
                      None \<Rightarrow> Panic s1
                    | Some d' \<Rightarrow>
                        (case UpdateDelivery (peUpdateFault env) (peUpdateNow env) s1 d' of
                           Inl err \<Rightarrow> Return s1
                         | Inr s2 \<Rightarrow> Return s2)))"

section \<open>Package api: handlers\<close>

text \<open>
  A handler answers with \<open>writeError\<close> or \<open>writeJSON\<close>.  \<open>json.NewDecoder(r.Body).Decode\<close>
  belongs to the standard library and is a parameter \<open>decode\<close> of the handlers: applied to
  the bytes that the body reader yields, it returns the decoded request or \<open>None\<close> for an
  error.  The application is the one that \<open>AuthMiddleware\<close> stored in the context.
\<close>

datatype 'a Response = WriteError int string | WriteJSON int 'a

subsection \<open>MessageHandler.Send\<close>

record sendMessageRequest =
  EventType :: string
  Payload :: string

definition maxPayloadSize :: nat where
  "maxPayloadSize = 256 * 1024"

text \<open>
  The environment of one call of \<open>Send\<close>: the clock, the identifiers drawn for the message
  and for the \<open>i\<close>-th delivery, the faults of the store calls (the \<open>i\<close>-th
  \<open>CreateDelivery\<close> separately), and the rank by which the endpoint query orders endpoints
  with equal \<open>created_at\<close>.
\<close>

record SendEnv =
  seNow :: int
  seMessageID :: string
  seDeliveryID :: "nat \<Rightarrow> string"
  seCreateMessageFault :: bool
  seGetEndpointsFault :: bool
  seEndpointTie :: "Endpoint \<Rightarrow> nat"
  seCreateDeliveryFault :: "nat \<Rightarrow> bool"

text \<open>The delivery that the loop of \<open>Send\<close> builds for its \<open>i\<close>-th endpoint.\<close>

definition Send_delivery :: "SendEnv \<Rightarrow> Message \<Rightarrow> nat \<Rightarrow> Endpoint \<Rightarrow> Delivery" where
  "Send_delivery env msg i ep =
     \<lparr>dlvID = seDeliveryID env i, dlvMessageID = msgID msg, dlvEndpointID = epID ep,
      dlvStatus = DeliveryPending, dlvAttemptCount = 0, dlvNextRetryAt = None,
      dlvCreatedAt = seNow env, dlvUpdatedAt = seNow env\<rparr>"

text \<open>
  The loop over the endpoints: \<open>None\<close> when a \<open>CreateDelivery\<close> failed (the handler then
  returns at once), with the store as the loop left it.
\<close>

fun Send_loop ::
    "SendEnv \<Rightarrow> Message \<Rightarrow> nat \<Rightarrow> Endpoint list \<Rightarrow> Delivery list \<Rightarrow> Store
      \<Rightarrow> Delivery list option \<times> Store" where
  "Send_loop env msg i [] ds s = (Some ds, s)"
| "Send_loop env msg i (ep # eps) ds s =
     (let d = Send_delivery env msg i ep
      in case CreateDelivery (seCreateDeliveryFault env i) s d of
           Inl err \<Rightarrow> (None, s)
         | Inr s' \<Rightarrow> Send_loop env msg (Suc i) eps (ds @ [d]) s')"

text \<open>
  The rows that the loop has inserted after passing the endpoints \<open>eps\<close> without a fault,
  starting at index \<open>i\<close>.
\<close>

fun Send_rows :: "SendEnv \<Rightarrow> Message \<Rightarrow> nat \<Rightarrow> Endpoint list \<Rightarrow> Delivery list" where
  "Send_rows env msg i [] = []"
| "Send_rows env msg i (ep # eps) = Send_delivery env msg i ep # Send_rows env msg (Suc i) eps"

text \<open>
  \<open>http.MaxBytesReader(w, r.Body, maxPayloadSize)\<close> lets the decoder read the first
  \<open>maxPayloadSize\<close> bytes of the body and fails after them.
\<close>

definition Send ::
    "(string \<Rightarrow> sendMessageRequest option) \<Rightarrow> SendEnv \<Rightarrow> Store \<Rightarrow> Application option \<Rightarrow> string
      \<Rightarrow> (Message \<times> nat) Response \<times> Store" where
  "Send decode env s app body =
     (case app of
        None \<Rightarrow> (WriteError 401 ''unauthorized'', s)
      | Some a \<Rightarrow>
          (case decode (take maxPayloadSize body) of
             None \<Rightarrow> (WriteError 400 ''invalid request body'', s)
           | Some req \<Rightarrow>
               if EventType req = [] then (WriteError 400 ''event_type is required'', s)
               else if length (Payload req) = 0 then (WriteError 400 ''payload is required'', s)
               else
                 let now = seNow env;
                     msg = \<lparr>msgID = seMessageID env, msgAppID = appID a,
                            msgEventType = EventType req, msgPayload = Payload req,
                            msgCreatedAt = now\<rparr>
                 in case CreateMessage (seCreateMessageFault env) s msg of
                      Inl err \<Rightarrow> (WriteError 500 ''failed to create message'', s)
                    | Inr s1 \<Rightarrow>
                        (case GetEndpointsByEventType (seGetEndpointsFault env) (seEndpointTie env) s1 (appID a)
                                (EventType req) of
                           Inl err \<Rightarrow> (WriteError 500 ''failed to find endpoints'', s1)
                         | Inr eps \<Rightarrow>
                             (case Send_loop env msg 0 eps [] s1 of
                                (None, s2) \<Rightarrow> (WriteError 500 ''failed to create delivery'', s2)
                              | (Some ds, s2) \<Rightarrow> (WriteJSON 202 (msg, length ds), s2)))))"

subsection \<open>MessageHandler.Retry\<close>

record RetryEnv =
  reGetMessageFault :: bool
  reGetDeliveriesFault :: bool
  reDeliveryTie :: "Delivery \<Rightarrow> nat"
  reNow :: int
  reUpdateFault :: "nat \<Rightarrow> bool"
  reUpdateNow :: "nat \<Rightarrow> int"

fun Retry_loop :: "RetryEnv \<Rightarrow> nat \<Rightarrow> Delivery list \<Rightarrow> nat \<Rightarrow> Store \<Rightarrow> nat \<times> Store" where
  "Retry_loop env i [] retried s = (retried, s)"
| "Retry_loop env i (d # ds) retried s =
     (if dlvStatus d = DeliveryFailed then
        (case UpdateDelivery (reUpdateFault env i) (reUpdateNow env i) s
                (d\<lparr>dlvStatus := DeliveryRetrying, dlvNextRetryAt := Some (reNow env)\<rparr>) of
           Inl err \<Rightarrow> Retry_loop env (Suc i) ds retried s
         | Inr s' \<Rightarrow> Retry_loop env (Suc i) ds (Suc retried) s')
      else Retry_loop env (Suc i) ds retried s)"

definition Retry :: "RetryEnv \<Rightarrow> Store \<Rightarrow> string \<Rightarrow> nat Response \<times> Store" where
  "Retry env s ident =
     (case GetMessage (reGetMessageFault env) s ident of
        Inl err \<Rightarrow> (WriteError 500 ''failed to get message'', s)
      | Inr None \<Rightarrow> (WriteError 404 ''message not found'', s)
      | Inr (Some msg) \<Rightarrow>
          (case GetDeliveriesByMessage (reGetDeliveriesFault env) (reDeliveryTie env) s ident of
             Inl err \<Rightarrow> (WriteError 500 ''failed to get deliveries'', s)
           | Inr ds \<Rightarrow>
               (case Retry_loop env 0 ds 0 s of
                  (retried, s') \<Rightarrow> (WriteJSON 200 retried, s'))))"

subsection \<open>EndpointHandler.Create\<close>

record createEndpointRequest =
  URL :: string
  Description :: string
  EventTypes :: "string slice"
  RateLimit :: int
  Metadata :: "(string \<times> string) list option"

text \<open>
  The environment of one call of \<open>Create\<close>: clock, identifier, the draws of \<open>NewSecret\<close>
  and the fault of \<open>CreateEndpoint\<close>.  \<open>url.Parse\<close> belongs to the standard library and
  is the parameter \<open>parse\<close>: it returns scheme and host, or \<open>None\<close> for an error.
\<close>

record CreateEnv =
  ceNow :: int
  ceEndpointID :: string
  ceDraw :: "nat \<Rightarrow> nat"
  ceCreateEndpointFault :: bool

definition Create ::
    "(string \<Rightarrow> createEndpointRequest option) \<Rightarrow> (string \<Rightarrow> (string \<times> string) option)
      \<Rightarrow> CreateEnv \<Rightarrow> Store \<Rightarrow> Application option \<Rightarrow> string \<Rightarrow> Endpoint Response \<times> Store" where
  "Create decode parse env s app body =
     (case app of
        None \<Rightarrow> (WriteError 401 ''unauthorized'', s)
      | Some a \<Rightarrow>
          (case decode body of
             None \<Rightarrow> (WriteError 400 ''invalid request body'', s)
           | Some req \<Rightarrow>
               if URL req = [] then (WriteError 400 ''url is required'', s)
               else if (case parse (URL req) of
                          None \<Rightarrow> True
                        | Some (scheme, host) \<Rightarrow>
                            (scheme \<noteq> ''http'' \<and> scheme \<noteq> ''https'') \<or> host = [])
               then (WriteError 400 ''url must be a valid HTTP or HTTPS URL'', s)
               else
                 let now = ceNow env;
                     ep = \<lparr>epID = ceEndpointID env, epAppID = appID a, epURL = URL req,
                           epDescription = Description req, epSecret = NewSecret (ceDraw env),
                           epEventTypes = EventTypes req, epRateLimit = RateLimit req,
                           epMetadata = Metadata req, epActive = True,
                           epCreatedAt = now, epUpdatedAt = now\<rparr>;
                     ep1 = (if epEventTypes ep = None then ep\<lparr>epEventTypes := Some []\<rparr> else ep);
                     ep2 = (if epMetadata ep1 = None then ep1\<lparr>epMetadata := Some []\<rparr> else ep1)
                 in case CreateEndpoint (ceCreateEndpointFault env) s ep2 of
                      Inl err \<Rightarrow> (WriteError 500 ''failed to create endpoint'', s)
                    | Inr s' \<Rightarrow> (WriteJSON 201 ep2, s')))"

section \<open>Runs of the system\<close>

text \<open>
  The stores that the operations can produce from the empty database.  A worker processes
  a copy of a row that \<open>GetPendingDeliveries\<close> returned for some reachable store, possibly
  an earlier one than the store it writes to (the poller hands out copies and rows are not
  leased).  A handler call runs without interleaving.  A panic ends the process; the
  database stays as it was at that moment.
  Endpoint and application rows change through the storage operations that the remaining
  handlers call.  The flag \<open>manual\<close> says whether the manual retry (\<open>Retry\<close>) is among
  the operations.
\<close>

inductive reachable :: "bool \<Rightarrow> int \<Rightarrow> int list \<Rightarrow> Store \<Rightarrow> bool"
  for manual :: bool and maxAttempts :: int and retrySchedule :: "int list" where
  r_init: "reachable manual maxAttempts retrySchedule
             \<lparr>endpoints = [], messages = [], deliveries = [], attempts = []\<rparr>"
| r_send: "reachable manual maxAttempts retrySchedule s
     \<Longrightarrow> Send decode env s app body = (resp, s')
     \<Longrightarrow> reachable manual maxAttempts retrySchedule s'"
| r_process: "reachable manual maxAttempts retrySchedule s0
     \<Longrightarrow> GetPendingDeliveries False tie s0 now limit = Inr ds \<Longrightarrow> d \<in> set ds
     \<Longrightarrow> reachable manual maxAttempts retrySchedule s
     \<Longrightarrow> s' = store_of (Process maxAttempts retrySchedule env s d)
     \<Longrightarrow> reachable manual maxAttempts retrySchedule s'"
| r_retry: "manual \<Longrightarrow> reachable manual maxAttempts retrySchedule s
     \<Longrightarrow> Retry env s ident = (resp, s')
     \<Longrightarrow> reachable manual maxAttempts retrySchedule s'"
| r_create_endpoint: "reachable manual maxAttempts retrySchedule s
     \<Longrightarrow> CreateEndpoint False s ep = Inr s'
     \<Longrightarrow> reachable manual maxAttempts retrySchedule s'"
| r_update_endpoint: "reachable manual maxAttempts retrySchedule s
     \<Longrightarrow> UpdateEndpoint False now s ep = Inr s'
     \<Longrightarrow> reachable manual maxAttempts retrySchedule s'"
| r_toggle_endpoint: "reachable manual maxAttempts retrySchedule s
     \<Longrightarrow> ToggleEndpoint False now s ident active = Inr s'
     \<Longrightarrow> reachable manual maxAttempts retrySchedule s'"
| r_delete_endpoint: "reachable manual maxAttempts retrySchedule s
     \<Longrightarrow> DeleteEndpoint False s ident = Inr s'
     \<Longrightarrow> reachable manual maxAttempts retrySchedule s'"
| r_delete_application: "reachable manual maxAttempts retrySchedule s
     \<Longrightarrow> DeleteApplication False s ident = Inr s'
     \<Longrightarrow> reachable manual maxAttempts retrySchedule s'"

text \<open>
  What a delivery row satisfies in every reachable store: a failed row has no next retry
  and has used up the attempts; as long as no manual retry takes place (and at least one
  attempt is configured) a row waiting for the worker has attempts left and a failed row
  has made exactly \<open>maxAttempts\<close> attempts.
\<close>

definition delivery_inv :: "bool \<Rightarrow> int \<Rightarrow> Delivery \<Rightarrow> bool" where
  "delivery_inv manual maxAttempts d =
     ((dlvStatus d = DeliveryFailed \<longrightarrow>
         dlvNextRetryAt d = None \<and> maxAttempts \<le> dlvAttemptCount d)
      \<and> (\<not> manual \<and> 1 \<le> maxAttempts \<longrightarrow>
           (dlvStatus d = DeliveryPending \<or> dlvStatus d = DeliveryRetrying
              \<longrightarrow> dlvAttemptCount d < maxAttempts)
           \<and> (dlvStatus d = DeliveryFailed \<longrightarrow> dlvAttemptCount d = maxAttempts)))"

section \<open>A scenario\<close>

text \<open>
  Application \<open>app_A\<close> with endpoint \<open>ep_1\<close> subscribed to \<open>order.*\<close> (and, in the second
  store, endpoint \<open>ep_2\<close> subscribed to \<open>*\<close>); one message \<open>order.created\<close>; a receiver
  that answers with the given status code.  \<open>ex_decode\<close> is the decoder on the one body
  that the scenario posts.
\<close>

definition ex_app :: Application where
  "ex_app = \<lparr>appID = ''app_A'', appName = ''A'', appAPIKey = ''pk_A'',
             appCreatedAt = 0, appUpdatedAt = 0\<rparr>"

definition ex_ep :: Endpoint where
  "ex_ep = \<lparr>epID = ''ep_1'', epAppID = ''app_A'', epURL = ''https://customer.com/webhooks'',
            epDescription = ''E'', epSecret = ''whsec_aaaaaaaaaaaaaaaaaaaaaaaaaaaaaaaaaaaaaaaa'',
            epEventTypes = Some [''order.*''], epRateLimit = 0, epMetadata = Some [],
            epActive = True, epCreatedAt = 1, epUpdatedAt = 1\<rparr>"

definition ex_ep2 :: Endpoint where
  "ex_ep2 = \<lparr>epID = ''ep_2'', epAppID = ''app_A'', epURL = ''https://other.com/hook'',
             epDescription = ''F'', epSecret = ''whsec_bbbbbbbbbbbbbbbbbbbbbbbbbbbbbbbbbbbbbbbb'',
             epEventTypes = Some [''*''], epRateLimit = 0, epMetadata = Some [],
             epActive = True, epCreatedAt = 5, epUpdatedAt = 5\<rparr>"

definition ex_s0 :: Store where
  "ex_s0 = \<lparr>endpoints = [ex_ep], messages = [], deliveries = [], attempts = []\<rparr>"

definition ex_s0' :: Store where
  "ex_s0' = \<lparr>endpoints = [ex_ep, ex_ep2], messages = [], deliveries = [], attempts = []\<rparr>"

definition ex_body :: string where
  "ex_body = ''{\"event_type\":\"order.created\",\"payload\":{\"id\":\"1\"}}''"

definition ex_decode :: "string \<Rightarrow> sendMessageRequest option" where
  "ex_decode b =
     (if b = ex_body then Some \<lparr>EventType = ''order.created'', Payload = ''{\"id\":\"1\"}''\<rparr>
      else None)"

definition ex_send_env :: SendEnv where
  "ex_send_env = \<lparr>seNow = 2, seMessageID = ''msg_1'', seDeliveryID = (\<lambda>i. ''dlv_1''),
                  seCreateMessageFault = False, seGetEndpointsFault = False,
                  seEndpointTie = (\<lambda>ep. 0), seCreateDeliveryFault = (\<lambda>i. False)\<rparr>"

text \<open>The second \<open>CreateDelivery\<close> of the call fails.\<close>

definition ex_send_env' :: SendEnv where
  "ex_send_env' = \<lparr>seNow = 6, seMessageID = ''msg_1'',
                   seDeliveryID = (\<lambda>i. if i = 0 then ''dlv_1'' else ''dlv_2''),
                   seCreateMessageFault = False, seGetEndpointsFault = False,
                   seEndpointTie = (\<lambda>ep. 0), seCreateDeliveryFault = (\<lambda>i. i = 1)\<rparr>"

definition ex_env :: "int \<Rightarrow> string \<Rightarrow> int \<Rightarrow> ProcessEnv" where
  "ex_env code ident t =
     \<lparr>peGetMessageFault = False, peGetEndpointFault = False,
      peSendResult = \<lparr>StatusCode = code, ResponseBody = ''r'', LatencyMs = 40, Error = []\<rparr>,
      peAttemptID = ident, peNow = t, peCreateAttemptFault = False, peRetryNow = t,
      peUpdateFault = False, peUpdateNow = t\<rparr>"

definition ex_retry_env :: RetryEnv where
  "ex_retry_env = \<lparr>reGetMessageFault = False, reGetDeliveriesFault = False,
                   reDeliveryTie = (\<lambda>d. 0), reNow = 20,
                   reUpdateFault = (\<lambda>i. False), reUpdateNow = (\<lambda>i. 20)\<rparr>"

definition ex_msg :: "int \<Rightarrow> Message" where
  "ex_msg t = \<lparr>msgID = ''msg_1'', msgAppID = ''app_A'', msgEventType = ''order.created'',
               msgPayload = ''{\"id\":\"1\"}'', msgCreatedAt = t\<rparr>"

definition ex_dlv :: "DeliveryStatus \<Rightarrow> int \<Rightarrow> int option \<Rightarrow> int \<Rightarrow> Delivery" where
  "ex_dlv st n next upd =
     \<lparr>dlvID = ''dlv_1'', dlvMessageID = ''msg_1'', dlvEndpointID = ''ep_1'', dlvStatus = st,
      dlvAttemptCount = n, dlvNextRetryAt = next, dlvCreatedAt = 2, dlvUpdatedAt = upd\<rparr>"

definition ex_att :: "string \<Rightarrow> int \<Rightarrow> int \<Rightarrow> int \<Rightarrow> Attempt" where
  "ex_att ident n code t =
     \<lparr>attID = ident, attDeliveryID = ''dlv_1'', attAttemptNumber = n, attStatusCode = code,
      attResponseBody = ''r'', attLatencyMs = 40, attError = [], attCreatedAt = t\<rparr>"

definition ex_store :: "Delivery \<Rightarrow> Attempt list \<Rightarrow> Store" where
  "ex_store d as = \<lparr>endpoints = [ex_ep], messages = [ex_msg 2], deliveries = [d], attempts = as\<rparr>"

text \<open>
  A request to create an endpoint whose body also carries \<open>secret\<close> and \<open>active\<close>; the
  struct \<open>createEndpointRequest\<close> has no such fields, so the decoder drops them.  The
  \<open>i\<close>-th draw of the random source is \<open>i\<close>.
\<close>

definition ex_create_body :: string where
  "ex_create_body =
     ''{\"url\":\"https://customer.com/webhooks\",\"secret\":\"mine\",\"active\":false}''"

definition ex_create_decode :: "string \<Rightarrow> createEndpointRequest option" where
  "ex_create_decode b =
     (if b = ex_create_body
      then Some \<lparr>URL = ''https://customer.com/webhooks'', Description = [], EventTypes = None,
                 RateLimit = 0, Metadata = None\<rparr>
      else None)"

definition ex_parse :: "string \<Rightarrow> (string \<times> string) option" where
  "ex_parse u =
     (if u = ''https://customer.com/webhooks'' then Some (''https'', ''customer.com'') else None)"

definition ex_create_env :: CreateEnv where
  "ex_create_env = \<lparr>ceNow = 1, ceEndpointID = ''ep_1'', ceDraw = (\<lambda>i. i),
                    ceCreateEndpointFault = False\<rparr>"

definition ex_created :: Endpoint where
  "ex_created = \<lparr>epID = ''ep_1'', epAppID = ''app_A'', epURL = ''https://customer.com/webhooks'',
                 epDescription = [],
                 epSecret = ''whsec_abcdefghijklmnopqrstuvwxyzABCDEFGHIJKLMN'',
                 epEventTypes = Some [], epRateLimit = 0, epMetadata = Some [],
                 epActive = True, epCreatedAt = 1, epUpdatedAt = 1\<rparr>"

text \<open>
  A queue for the due-delivery query: four due rows, two of them with the same creation
  time, and three rows that are not due (delivered, scheduled later, failed).  The rank
  \<open>ex_tie_b\<close> puts \<open>dlv_b\<close> first among rows created together, \<open>ex_tie_0\<close> leaves them
  in insertion order.
\<close>

definition ex_q :: "string \<Rightarrow> DeliveryStatus \<Rightarrow> int option \<Rightarrow> int \<Rightarrow> Delivery" where
  "ex_q ident st next created =
     \<lparr>dlvID = ident, dlvMessageID = ''msg_1'', dlvEndpointID = ''ep_1'', dlvStatus = st,
      dlvAttemptCount = (if st = DeliveryPending then 0 else 1), dlvNextRetryAt = next,
      dlvCreatedAt = created, dlvUpdatedAt = created\<rparr>"

definition ex_queue :: Store where
  "ex_queue =
     \<lparr>endpoints = [ex_ep], messages = [ex_msg 0],
      deliveries = [ex_q ''dlv_a'' DeliveryPending None 2,
                    ex_q ''dlv_b'' DeliveryRetrying (Some 10) 2,
                    ex_q ''dlv_c'' DeliveryPending None 1,
                    ex_q ''dlv_d'' DeliveryPending None 5,
                    ex_q ''dlv_e'' DeliverySuccess None 0,
                    ex_q ''dlv_f'' DeliveryRetrying (Some 30) 0,
                    ex_q ''dlv_g'' DeliveryFailed None 0],
      attempts = []\<rparr>"

definition ex_tie_b :: "Delivery \<Rightarrow> nat" where
  "ex_tie_b d = (if dlvID d = ''dlv_b'' then 0 else 1)"

definition ex_tie_0 :: "Delivery \<Rightarrow> nat" where
  "ex_tie_0 d = 0"

text \<open>
  Two large requests with event type \<open>x\<close> whose payload is a JSON string of letters
  \<open>a\<close>: in \<open>ex_big_body\<close> the payload has 262144 bytes and the body 262173, in
  \<open>ex_fit_body\<close> the payload has 262115 bytes and the body 262144.  Each comes with the
  decoder on that one body.
\<close>

definition ex_fill :: "nat \<Rightarrow> string" where
  "ex_fill n = replicate n (CHR ''a'')"

definition ex_big_payload :: string where
  "ex_big_payload = ''\"'' @ ex_fill 262142 @ ''\"''"

definition ex_big_body :: string where
  "ex_big_body = ''{\"event_type\":\"x\",\"payload\":'' @ ex_big_payload @ ''}''"

definition ex_big_decode :: "string \<Rightarrow> sendMessageRequest option" where
  "ex_big_decode b =
     (if b = ex_big_body then Some \<lparr>EventType = ''x'', Payload = ex_big_payload\<rparr> else None)"

definition ex_fit_payload :: string where
  "ex_fit_payload = ''\"'' @ ex_fill 262113 @ ''\"''"

definition ex_fit_body :: string where
  "ex_fit_body = ''{\"event_type\":\"x\",\"payload\":'' @ ex_fit_payload @ ''}''"

definition ex_fit_decode :: "string \<Rightarrow> sendMessageRequest option" where
  "ex_fit_decode b =
     (if b = ex_fit_body then Some \<lparr>EventType = ''x'', Payload = ex_fit_payload\<rparr> else None)"

section \<open>Properties\<close>

subsection \<open>Signing\<close>

declare decimal.simps [simp del]

text \<open>The first known-answer test of FIPS 180-4 for SHA-256.\<close>

lemma sha256_abc:
  "EncodeToString (sha256 (bytes_of ''abc''))
     = ''ba7816bf8f01cfea414140de5dae2223b00361a396177a9cb410ff61f20015ad''"
  by code_simp

lemma hexdigit_inj: "n < 16 \<Longrightarrow> m < 16 \<Longrightarrow> hexdigit n = hexdigit m \<Longrightarrow> n = m"
  unfolding hexdigit_def
  by (subst (asm) nth_eq_iff_index_eq) simp_all

lemma EncodeToString_Cons:
  "EncodeToString (b # bs) =
     hexdigit (unat b div 16) # hexdigit (unat b mod 16) # EncodeToString bs"
  by (simp add: EncodeToString_def)

lemma byte_nibbles_inj:
  fixes a b :: byte
  assumes "hexdigit (unat a div 16) = hexdigit (unat b div 16)"
      and "hexdigit (unat a mod 16) = hexdigit (unat b mod 16)"
  shows "a = b"
proof -
  have la: "unat a < 256" and lb: "unat b < 256"
    using unsigned_less [of a, where ?'a = nat] unsigned_less [of b, where ?'a = nat]
    by simp_all
  have "unat a div 16 = unat b div 16"
    using assms(1) la lb by (intro hexdigit_inj) simp_all
  moreover have "unat a mod 16 = unat b mod 16"
    using assms(2) by (intro hexdigit_inj) simp_all
  ultimately have "unat a = unat b"
    by (metis div_mult_mod_eq)
  then show ?thesis by (rule word_unat_eq_iff [THEN iffD2])
qed

lemma EncodeToString_inj: "EncodeToString xs = EncodeToString ys \<Longrightarrow> xs = ys"
proof (induction xs arbitrary: ys)
  case Nil
  then show ?case
    by (cases ys) (simp_all add: EncodeToString_Cons, simp add: EncodeToString_def)
next
  case (Cons a xs)
  show ?case
  proof (cases ys)
    case Nil
    with Cons.prems show ?thesis
      by (simp add: EncodeToString_Cons) (simp add: EncodeToString_def)
  next
    case (Cons b ys')
    with Cons.prems Cons.IH [of ys'] show ?thesis
      by (auto simp: EncodeToString_Cons dest: byte_nibbles_inj)
  qed
qed

lemma length_EncodeToString: "length (EncodeToString bs) = 2 * length bs"
  by (induction bs) (simp_all add: EncodeToString_Cons, simp add: EncodeToString_def)

lemma length_sha256: "length (sha256 m) = 32"
  by (simp add: sha256_def Let_def u32_bytes_def split: prod.split)

lemma hmac_key_trailing_zero: "length k < 64 \<Longrightarrow> hmac_key (k @ [0]) = hmac_key k"
  by (simp add: hmac_key_def replicate_app_Cons_same Suc_diff_Suc flip: replicate_Suc)

lemma bytes_of_snoc_zero: "bytes_of (s @ [CHR 0x00]) = bytes_of s @ [0]"
  by (simp add: bytes_of_def)

text \<open>
  C1 (as the code has it).  For every secret, payload and timestamp: \<open>Verify\<close> accepts
  the signature that \<open>Sign\<close> produces at that timestamp; the signature is a function of
  (secret, payload, timestamp), equal to \<open>v1=\<close> followed by the 64 lowercase hex digits of
  HMAC-SHA256(secret, decimal(ts) ++ "." ++ payload); \<open>Verify\<close> with another secret
  accepts it exactly when the two secrets give the same HMAC tag on the signed bytes;
  they do when HMAC derives the same key block from them, as it does when the other secret
  is the secret (shorter than 64 bytes) followed by a zero byte, because HMAC pads short
  keys with zero bytes.
\<close>

theorem Sign_Verify:
  "Verify secret payload ts (fst (Sign ts secret payload))
   \<and> Sign ts secret payload =
       (''v1='' @ EncodeToString (hmac_sha256 (bytes_of secret)
                   (bytes_of (Sprintf_d ts @ ''.'' @ payload))), ts)
   \<and> length (fst (Sign ts secret payload)) = 3 + 64
   \<and> (Verify secret' payload ts (fst (Sign ts secret payload)) \<longleftrightarrow>
        hmac_sha256 (bytes_of secret') (bytes_of (Sprintf_d ts @ ''.'' @ payload))
          = hmac_sha256 (bytes_of secret) (bytes_of (Sprintf_d ts @ ''.'' @ payload)))
   \<and> (hmac_key (bytes_of secret') = hmac_key (bytes_of secret) \<longrightarrow>
        Verify secret' payload ts (fst (Sign ts secret payload)))
   \<and> (length secret < 64 \<longrightarrow>
        Verify (secret @ [CHR 0x00]) payload ts (fst (Sign ts secret payload)))"
proof -
  have a: "Verify secret payload ts (fst (Sign ts secret payload))"
    by (simp add: Verify_def Sign_def)
  have b: "Sign ts secret payload =
       (''v1='' @ EncodeToString (hmac_sha256 (bytes_of secret)
                   (bytes_of (Sprintf_d ts @ ''.'' @ payload))), ts)"
    by (simp add: Sign_def)
  have c: "length (fst (Sign ts secret payload)) = 3 + 64"
    by (simp add: Sign_def length_EncodeToString hmac_sha256_def Let_def length_sha256)
  have d: "Verify secret' payload ts (fst (Sign ts secret payload)) \<longleftrightarrow>
        hmac_sha256 (bytes_of secret') (bytes_of (Sprintf_d ts @ ''.'' @ payload))
          = hmac_sha256 (bytes_of secret) (bytes_of (Sprintf_d ts @ ''.'' @ payload))"
    using EncodeToString_inj by (auto simp: Verify_def Sign_def)
  have e: "Verify (secret @ [CHR 0x00]) payload ts (fst (Sign ts secret payload))"
    if "length secret < 64"
  proof -
    have "hmac_key (bytes_of (secret @ [CHR 0x00])) = hmac_key (bytes_of secret)"
      unfolding bytes_of_snoc_zero using that
      by (intro hmac_key_trailing_zero) (simp add: bytes_of_def)
    then show ?thesis
      unfolding Verify_def Sign_def hmac_sha256_def Let_def fst_conv by (simp only:)
  qed
  have f: "Verify secret' payload ts (fst (Sign ts secret payload))"
    if "hmac_key (bytes_of secret') = hmac_key (bytes_of secret)"
    using that unfolding Verify_def Sign_def hmac_sha256_def Let_def fst_conv by (simp only:)
  from a b c d e f show ?thesis by blast
qed

theorem Sign_Verify_witness:
  "Verify ''whsec_k'' ''{}'' 1700000000 (fst (Sign 1700000000 ''whsec_k'' ''{}''))
   \<and> snd (Sign 1700000000 ''whsec_k'' ''{}'') = 1700000000
   \<and> length ''whsec_k'' < 64
   \<and> Verify (''whsec_k'' @ [CHR 0x00]) ''{}'' 1700000000 (fst (Sign 1700000000 ''whsec_k'' ''{}''))"
proof -
  note t = Sign_Verify [of "''whsec_k''" "''{}''" 1700000000 "''whsec_k''"]
  have "snd (Sign 1700000000 ''whsec_k'' ''{}'') = 1700000000"
    by (simp add: Sign_def)
  moreover have "length ''whsec_k'' < 64"
    by simp
  ultimately show ?thesis using t by blast
qed

text \<open>
  C1 as stated fails: a secret that differs from the signing secret can verify.  The
  secret \<open>whsec_\<close> followed by forty letters \<open>a\<close> is one that \<open>NewSecret\<close> can generate;
  the same secret followed by a zero byte is a different string and \<open>Verify\<close> accepts the
  signature under it.
\<close>

theorem Verify_other_secret_counterexample:
  "''whsec_aaaaaaaaaaaaaaaaaaaaaaaaaaaaaaaaaaaaaaaa'' @ [CHR 0x00]
      \<noteq> ''whsec_aaaaaaaaaaaaaaaaaaaaaaaaaaaaaaaaaaaaaaaa''
   \<and> Verify (''whsec_aaaaaaaaaaaaaaaaaaaaaaaaaaaaaaaaaaaaaaaa'' @ [CHR 0x00]) ''{}'' 1700000000
      (fst (Sign 1700000000 ''whsec_aaaaaaaaaaaaaaaaaaaaaaaaaaaaaaaaaaaaaaaa'' ''{}''))"
proof -
  have "length (bytes_of ''whsec_aaaaaaaaaaaaaaaaaaaaaaaaaaaaaaaaaaaaaaaa'') < 64"
    by (simp add: bytes_of_def)
  then have "hmac_key (bytes_of (''whsec_aaaaaaaaaaaaaaaaaaaaaaaaaaaaaaaaaaaaaaaa'' @ [CHR 0x00]))
      = hmac_key (bytes_of ''whsec_aaaaaaaaaaaaaaaaaaaaaaaaaaaaaaaaaaaaaaaa'')"
    unfolding bytes_of_snoc_zero by (rule hmac_key_trailing_zero)
  then have "Verify (''whsec_aaaaaaaaaaaaaaaaaaaaaaaaaaaaaaaaaaaaaaaa'' @ [CHR 0x00]) ''{}'' 1700000000
      (fst (Sign 1700000000 ''whsec_aaaaaaaaaaaaaaaaaaaaaaaaaaaaaaaaaaaaaaaa'' ''{}''))"
    unfolding Verify_def Sign_def hmac_sha256_def Let_def fst_conv by (simp only:)
  then show ?thesis by simp
qed

subsection \<open>Subscription matching\<close>

lemma HasSuffix_iff: "HasSuffix s suffix \<longleftrightarrow> (\<exists>p. s = p @ suffix)"
proof
  assume "HasSuffix s suffix"
  then have "s = take (length s - length suffix) s @ suffix"
    by (metis HasSuffix_def append_take_drop_id)
  then show "\<exists>p. s = p @ suffix" ..
next
  assume "\<exists>p. s = p @ suffix"
  then show "HasSuffix s suffix" by (auto simp: HasSuffix_def)
qed

lemma TrimSuffix_append [simp]: "TrimSuffix (p @ suffix) suffix = p"
  by (simp add: TrimSuffix_def HasSuffix_def)

lemma HasPrefix_iff: "HasPrefix s prefix \<longleftrightarrow> (\<exists>r. s = prefix @ r)"
proof
  assume "HasPrefix s prefix"
  then have "s = prefix @ drop (length prefix) s"
    by (metis HasPrefix_def append_take_drop_id)
  then show "\<exists>r. s = prefix @ r" ..
next
  assume "\<exists>r. s = prefix @ r"
  then show "HasPrefix s prefix" by (auto simp: HasPrefix_def)
qed

lemma matchesEventType_loop_iff:
  "matchesEventType_loop subs e \<longleftrightarrow>
     (\<exists>sub \<in> set subs. sub = e \<or> sub = ''*'' \<or> (\<exists>p r. sub = p @ ''.*'' \<and> e = p @ ''.'' @ r))"
  (is "_ \<longleftrightarrow> (\<exists>sub \<in> set subs. ?P sub)")
proof (induction subs)
  case Nil
  show ?case by simp
next
  case (Cons sub subs)
  have wild: "(HasSuffix sub ''.*'' \<and> HasPrefix e (TrimSuffix sub ''.*'' @ ''.''))
      \<longleftrightarrow> (\<exists>p r. sub = p @ ''.*'' \<and> e = p @ ''.'' @ r)"
  proof
    assume h: "HasSuffix sub ''.*'' \<and> HasPrefix e (TrimSuffix sub ''.*'' @ ''.'')"
    then obtain p where p: "sub = p @ ''.*''" by (auto simp: HasSuffix_iff)
    with h have "HasPrefix e (p @ ''.'')" by simp
    then obtain r where "e = (p @ ''.'') @ r" unfolding HasPrefix_iff by blast
    with p show "\<exists>p r. sub = p @ ''.*'' \<and> e = p @ ''.'' @ r" by auto
  next
    assume "\<exists>p r. sub = p @ ''.*'' \<and> e = p @ ''.'' @ r"
    then obtain p r where p: "sub = p @ ''.*''" and e: "e = p @ ''.'' @ r" by blast
    have "HasSuffix sub ''.*''" using p HasSuffix_iff by blast
    moreover have "HasPrefix e (p @ ''.'')" unfolding HasPrefix_iff using e by auto
    ultimately show "HasSuffix sub ''.*'' \<and> HasPrefix e (TrimSuffix sub ''.*'' @ ''.'')"
      using p by simp
  qed
  have "matchesEventType_loop (sub # subs) e \<longleftrightarrow>
      (sub = e \<or> (HasSuffix sub ''.*'' \<and> HasPrefix e (TrimSuffix sub ''.*'' @ ''.''))
        \<or> sub = ''*'' \<or> matchesEventType_loop subs e)"
    by auto
  also have "\<dots> \<longleftrightarrow> (?P sub \<or> (\<exists>s \<in> set subs. ?P s))"
    unfolding wild Cons.IH by blast
  also have "\<dots> \<longleftrightarrow> (\<exists>s \<in> set (sub # subs). ?P s)"
    by simp
  finally show ?case .
qed

text \<open>
  C2 (as the code has it).  \<open>matchesEventType subs e\<close> holds iff the list is empty or some
  subscription is \<open>*\<close>, or equals \<open>e\<close>, or is \<open>prefix.*\<close> with \<open>e\<close> starting with
  \<open>prefix.\<close>.  An event type equal to the bare \<open>prefix\<close> is not matched by \<open>prefix.*\<close>:
  \<open>["a.*"]\<close> matches \<open>a.b\<close>, and matches neither \<open>a\<close> nor \<open>ab\<close>; \<open>["a"]\<close> does not
  match \<open>a.b\<close>.
\<close>

theorem matchesEventType_rules:
  "(matchesEventType subs e \<longleftrightarrow>
      (subs = [] \<or>
       (\<exists>sub \<in> set subs. sub = e \<or> sub = ''*'' \<or>
          (\<exists>p r. sub = p @ ''.*'' \<and> e = p @ ''.'' @ r))))
   \<and> matchesEventType [] e
   \<and> matchesEventType [''*''] e
   \<and> matchesEventType [''a.*''] ''a.b''
   \<and> \<not> matchesEventType [''a.*''] ''a''
   \<and> \<not> matchesEventType [''a.*''] ''ab''
   \<and> \<not> matchesEventType [''a''] ''a.b''"
proof -
  have gen: "matchesEventType subs e \<longleftrightarrow>
      (subs = [] \<or>
       (\<exists>sub \<in> set subs. sub = e \<or> sub = ''*'' \<or>
          (\<exists>p r. sub = p @ ''.*'' \<and> e = p @ ''.'' @ r)))"
    by (cases subs) (simp_all add: matchesEventType_def matchesEventType_loop_iff del: matchesEventType_loop.simps)
  have c: "matchesEventType [''a.*''] ''a.b''" "\<not> matchesEventType [''a.*''] ''a''"
    "\<not> matchesEventType [''a.*''] ''ab''" "\<not> matchesEventType [''a''] ''a.b''"
    by (simp_all add: matchesEventType_def HasSuffix_def HasPrefix_def TrimSuffix_def)
  have "matchesEventType [] e" "matchesEventType [''*''] e"
    by (simp_all add: matchesEventType_def)
  with gen c show ?thesis by blast
qed

theorem matchesEventType_rules_witness:
  "matchesEventType [''order.*'', ''payment.succeeded''] ''order.created''
   \<and> \<not> matchesEventType [''order.*'', ''payment.succeeded''] ''order''"
proof -
  have "\<not> matchesEventType [''order.*'', ''payment.succeeded''] ''order''"
    by (simp add: matchesEventType_def HasSuffix_def HasPrefix_def TrimSuffix_def)
  moreover have "matchesEventType [''order.*'', ''payment.succeeded''] ''order.created''"
    using matchesEventType_rules [of "[''order.*'', ''payment.succeeded'']" "''order.created''"]
    by (simp add: exI [of _ "''order''"])
  ultimately show ?thesis by simp
qed

text \<open>
  C2 as stated fails: the subscription \<open>a.*\<close> does not match the event type \<open>a\<close>.
\<close>

theorem matchesEventType_bare_prefix_counterexample:
  "\<not> matchesEventType [''a.*''] ''a''"
  by (simp add: matchesEventType_def HasSuffix_def HasPrefix_def TrimSuffix_def)

subsection \<open>Evaluating the scenario\<close>

lemmas ex_defs = ex_app_def ex_ep_def ex_ep2_def ex_s0_def ex_s0'_def ex_body_def ex_decode_def
  ex_send_env_def ex_send_env'_def ex_env_def ex_retry_env_def ex_msg_def ex_dlv_def ex_att_def
  ex_store_def ex_create_body_def ex_create_decode_def ex_parse_def ex_create_env_def
  ex_created_def

lemmas match_defs = matchesEventType_def HasSuffix_def HasPrefix_def TrimSuffix_def elems_def

lemmas Process_defs = Process_def Process_classify_def IsSuccess_def NextRetryTime_def Let_def
  GetMessage_def GetEndpoint_def CreateAttempt_def UpdateDelivery_def

lemma ex_send:
  "Send ex_decode ex_send_env ex_s0 (Some ex_app) ex_body
     = (WriteJSON 202 (ex_msg 2, 1), ex_store (ex_dlv DeliveryPending 0 None 2) [])"
  by (simp add: Send_def ex_defs maxPayloadSize_def CreateMessage_def GetEndpointsByEventType_def
      match_defs Send_delivery_def CreateDelivery_def Let_def)

lemma ex_endpoints':
  "GetEndpointsByEventType False tie ex_s0' ''app_A'' ''order.created'' = Inr [ex_ep2, ex_ep]"
  by (simp add: GetEndpointsByEventType_def ex_defs match_defs)

lemma ex_pending1:
  "GetPendingDeliveries False tie (ex_store (ex_dlv DeliveryPending 0 None 2) []) 3 50
     = Inr [ex_dlv DeliveryPending 0 None 2]"
  by (simp add: GetPendingDeliveries_def due_def ex_defs)

lemma ex_process1:
  "Process 2 [1000000000] (ex_env 500 ''att_1'' 3) (ex_store (ex_dlv DeliveryPending 0 None 2) [])
      (ex_dlv DeliveryPending 0 None 2)
     = Return (ex_store (ex_dlv DeliveryRetrying 1 (Some 1000000003) 3) [ex_att ''att_1'' 1 500 3])"
  by (simp add: Process_defs ex_defs)


lemma ex_pending2:
  "GetPendingDeliveries False tie
      (ex_store (ex_dlv DeliveryRetrying 1 (Some 1000000003) 3) [ex_att ''att_1'' 1 500 3])
      1000000004 50
     = Inr [ex_dlv DeliveryRetrying 1 (Some 1000000003) 3]"
  by (simp add: GetPendingDeliveries_def due_def ex_defs)

lemma ex_process2:
  "Process 2 [1000000000] (ex_env 500 ''att_2'' 1000000004)
      (ex_store (ex_dlv DeliveryRetrying 1 (Some 1000000003) 3) [ex_att ''att_1'' 1 500 3])
      (ex_dlv DeliveryRetrying 1 (Some 1000000003) 3)
     = Return (ex_store (ex_dlv DeliveryFailed 2 None 1000000004)
                 [ex_att ''att_1'' 1 500 3, ex_att ''att_2'' 2 500 1000000004])"
  by (simp add: Process_defs ex_defs)

lemma ex_retry:
  "Retry ex_retry_env (ex_store (ex_dlv DeliveryFailed 2 None 1000000004)
                 [ex_att ''att_1'' 1 500 3, ex_att ''att_2'' 2 500 1000000004]) ''msg_1''
    = (WriteJSON 200 1, ex_store (ex_dlv DeliveryRetrying 2 (Some 20) 20)
                 [ex_att ''att_1'' 1 500 3, ex_att ''att_2'' 2 500 1000000004])"
  by (simp add: Retry_def GetMessage_def GetDeliveriesByMessage_def UpdateDelivery_def ex_defs)

lemma ex_pending3:
  "GetPendingDeliveries False tie (ex_store (ex_dlv DeliveryRetrying 2 (Some 20) 20)
                 [ex_att ''att_1'' 1 500 3, ex_att ''att_2'' 2 500 1000000004]) 1000000005 50
     = Inr [ex_dlv DeliveryRetrying 2 (Some 20) 20]"
  by (simp add: GetPendingDeliveries_def due_def ex_defs)

lemma ex_process3:
  "Process 2 [1000000000] (ex_env 500 ''att_3'' 1000000005)
      (ex_store (ex_dlv DeliveryRetrying 2 (Some 20) 20)
                 [ex_att ''att_1'' 1 500 3, ex_att ''att_2'' 2 500 1000000004])
      (ex_dlv DeliveryRetrying 2 (Some 20) 20)
     = Return (ex_store (ex_dlv DeliveryFailed 3 None 1000000005)
                 [ex_att ''att_1'' 1 500 3, ex_att ''att_2'' 2 500 1000000004,
                  ex_att ''att_3'' 3 500 1000000005])"
  by (simp add: Process_defs ex_defs)

text \<open>
  With eight attempts configured and a schedule of one entry, the second failed attempt
  ends in the panic: the attempt is recorded and the delivery row keeps its old state.
\<close>

lemma ex_process_panic:
  "Process 8 [30000000000] (ex_env 500 ''att_2'' 30000000004)
      (ex_store (ex_dlv DeliveryRetrying 1 (Some 30000000003) 3) [ex_att ''att_1'' 1 500 3])
      (ex_dlv DeliveryRetrying 1 (Some 30000000003) 3)
     = Panic (ex_store (ex_dlv DeliveryRetrying 1 (Some 30000000003) 3)
                [ex_att ''att_1'' 1 500 3, ex_att ''att_2'' 2 500 30000000004])"
  by (simp add: Process_defs ex_defs)

lemma ex_reach0: "reachable manual 2 [1000000000] ex_s0"
  by (rule r_create_endpoint [OF r_init, where ep = ex_ep]) (simp add: CreateEndpoint_def ex_s0_def)

lemma ex_reach1: "reachable manual 2 [1000000000] (ex_store (ex_dlv DeliveryPending 0 None 2) [])"
  by (rule r_send [OF ex_reach0 ex_send])

lemma ex_reach2:
  "reachable manual 2 [1000000000]
     (ex_store (ex_dlv DeliveryRetrying 1 (Some 1000000003) 3) [ex_att ''att_1'' 1 500 3])"
  by (rule r_process [OF ex_reach1 ex_pending1 _ ex_reach1,
        where d = "ex_dlv DeliveryPending 0 None 2" and env = "ex_env 500 ''att_1'' 3"])
     (simp_all only: ex_process1 store_of.simps list.set insertI1)

lemma ex_reach3:
  "reachable manual 2 [1000000000]
     (ex_store (ex_dlv DeliveryFailed 2 None 1000000004)
                 [ex_att ''att_1'' 1 500 3, ex_att ''att_2'' 2 500 1000000004])"
  by (rule r_process [OF ex_reach2 ex_pending2 _ ex_reach2,
        where d = "ex_dlv DeliveryRetrying 1 (Some 1000000003) 3"
          and env = "ex_env 500 ''att_2'' 1000000004"])
     (simp_all only: ex_process2 store_of.simps list.set insertI1)

lemma ex_reach4:
  "reachable True 2 [1000000000]
     (ex_store (ex_dlv DeliveryRetrying 2 (Some 20) 20)
                 [ex_att ''att_1'' 1 500 3, ex_att ''att_2'' 2 500 1000000004])"
  by (rule r_retry [OF TrueI ex_reach3 ex_retry])

lemma ex_reach5:
  "reachable True 2 [1000000000]
     (ex_store (ex_dlv DeliveryFailed 3 None 1000000005)
                 [ex_att ''att_1'' 1 500 3, ex_att ''att_2'' 2 500 1000000004,
                  ex_att ''att_3'' 3 500 1000000005])"
  by (rule r_process [OF ex_reach4 ex_pending3 _ ex_reach4,
        where d = "ex_dlv DeliveryRetrying 2 (Some 20) 20"
          and env = "ex_env 500 ''att_3'' 1000000005"])
     (simp_all only: ex_process3 store_of.simps list.set insertI1)

subsection \<open>Classification of an attempt\<close>



text \<open>
  C4.  A failed attempt whose new attempt count is below \<open>maxAttempts\<close>: when
  \<open>attemptCount - 1\<close> is an index of the schedule the delivery becomes \<open>retrying\<close> with
  next retry \<open>now + schedule[attemptCount - 1]\<close>; when the schedule is exhausted the
  delivery is not marked \<open>failed\<close>: the log statement dereferences the \<open>nil\<close> that
  \<open>NextRetryTime\<close> returned, and \<open>Process\<close> panics before it updates the delivery.
\<close>

theorem Process_classify_below_max:
  assumes "\<not> (Error result = [] \<and> IsSuccess (StatusCode result))"
      and "1 \<le> dlvAttemptCount d" and "dlvAttemptCount d < maxAttempts"
  shows "(dlvAttemptCount d - 1 < int (length retrySchedule) \<longrightarrow>
           Process_classify maxAttempts retrySchedule now result d =
             Some (d\<lparr>dlvStatus := DeliveryRetrying,
                      dlvNextRetryAt := Some (now + retrySchedule ! nat (dlvAttemptCount d - 1))\<rparr>))
       \<and> (dlvAttemptCount d - 1 \<ge> int (length retrySchedule) \<longrightarrow>
           Process_classify maxAttempts retrySchedule now result d = None)"
  using assms by (auto simp: Process_classify_def NextRetryTime_def Let_def)

theorem Process_classify_below_max_witness:
  "Process_classify 8 [30000000000] 4
      \<lparr>StatusCode = 500, ResponseBody = ''r'', LatencyMs = 40, Error = []\<rparr>
      (ex_dlv DeliveryPending 1 None 2)
     = Some (ex_dlv DeliveryRetrying 1 (Some 30000000004) 2)
   \<and> Process_classify 8 [30000000000] 30000000004
      \<lparr>StatusCode = 500, ResponseBody = ''r'', LatencyMs = 40, Error = []\<rparr>
      (ex_dlv DeliveryRetrying 2 (Some 30000000003) 3)
     = None"
proof -
  have f: "\<not> (Error \<lparr>StatusCode = 500, ResponseBody = ''r'', LatencyMs = 40, Error = []\<rparr> = []
      \<and> IsSuccess (StatusCode \<lparr>StatusCode = 500, ResponseBody = ''r'', LatencyMs = 40, Error = []\<rparr>))"
    by (simp add: IsSuccess_def)
  have "Process_classify 8 [30000000000] 4
      \<lparr>StatusCode = 500, ResponseBody = ''r'', LatencyMs = 40, Error = []\<rparr>
      (ex_dlv DeliveryPending 1 None 2)
     = Some (ex_dlv DeliveryRetrying 1 (Some 30000000004) 2)"
    using Process_classify_below_max [OF f, of "ex_dlv DeliveryPending 1 None 2" 8 "[30000000000]" 4]
    by (simp add: ex_dlv_def)
  moreover have "Process_classify 8 [30000000000] 30000000004
      \<lparr>StatusCode = 500, ResponseBody = ''r'', LatencyMs = 40, Error = []\<rparr>
      (ex_dlv DeliveryRetrying 2 (Some 30000000003) 3)
     = None"
    using Process_classify_below_max [OF f, of "ex_dlv DeliveryRetrying 2 (Some 30000000003) 3" 8
        "[30000000000]" 30000000004]
    by (simp add: ex_dlv_def)
  ultimately show ?thesis by simp
qed


subsection \<open>The state of a failed delivery\<close>

lemma Send_loop_inv:
  "Send_loop env msg i eps ds s = (r, s') \<Longrightarrow> \<forall>d \<in> set (deliveries s). delivery_inv b m d
     \<Longrightarrow> \<forall>d \<in> set (deliveries s'). delivery_inv b m d"
proof (induction eps arbitrary: i ds s)
  case Nil
  then show ?case by simp
next
  case (Cons ep eps)
  show ?case
  proof (cases "seCreateDeliveryFault env i")
    case True
    with Cons.prems show ?thesis by (simp add: CreateDelivery_def Let_def)
  next
    case False
    let ?d = "Send_delivery env msg i ep"
    let ?s = "s\<lparr>deliveries := deliveries s @ [?d]\<rparr>"
    from False Cons.prems(1)
    have "Send_loop env msg (Suc i) eps (ds @ [?d]) ?s = (r, s')"
      by (simp add: CreateDelivery_def Let_def)
    moreover have "\<forall>d \<in> set (deliveries ?s). delivery_inv b m d"
      using Cons.prems(2) by (simp add: delivery_inv_def Send_delivery_def)
    ultimately show ?thesis by (rule Cons.IH)
  qed
qed

lemma Send_inv:
  assumes "Send decode env s app body = (resp, s')"
      and "\<forall>d \<in> set (deliveries s). delivery_inv b m d"
  shows "\<forall>d \<in> set (deliveries s'). delivery_inv b m d"
proof -
  have *: "\<forall>d \<in> set (deliveries s2). delivery_inv b m d"
    if "Send_loop env msg 0 eps [] (s\<lparr>messages := messages s @ [msg]\<rparr>) = (r, s2)"
    for msg eps r s2
    using Send_loop_inv [OF that] assms(2) by simp
  show ?thesis
    using assms
    by (auto simp: Send_def Let_def CreateMessage_def GetEndpointsByEventType_def
          split: option.splits if_splits sum.splits prod.splits dest: *)
qed

lemma UpdateDelivery_inv:
  "UpdateDelivery fault now s d = Inr s' \<Longrightarrow> delivery_inv b m d
    \<Longrightarrow> \<forall>r \<in> set (deliveries s). delivery_inv b m r
    \<Longrightarrow> \<forall>r \<in> set (deliveries s'). delivery_inv b m r"
  by (auto simp: UpdateDelivery_def delivery_inv_def split: if_splits)

lemma Process_classify_inv:
  assumes "Process_classify m sched t result (d\<lparr>dlvAttemptCount := dlvAttemptCount d + 1\<rparr>) = Some d'"
      and "delivery_inv b m d"
      and "dlvStatus d = DeliveryPending \<or> dlvStatus d = DeliveryRetrying"
  shows "delivery_inv b m d'"
  using assms
  by (auto simp: Process_classify_def delivery_inv_def split: if_splits option.splits)

lemma Process_inv:
  assumes "\<forall>r \<in> set (deliveries s). delivery_inv b m r"
      and "delivery_inv b m d"
      and "dlvStatus d = DeliveryPending \<or> dlvStatus d = DeliveryRetrying"
  shows "\<forall>r \<in> set (deliveries (store_of (Process m sched env s d))). delivery_inv b m r"
proof -
  define d1 where "d1 = d\<lparr>dlvAttemptCount := dlvAttemptCount d + 1\<rparr>"
  define a where "a = \<lparr>attID = peAttemptID env, attDeliveryID = dlvID d1,
      attAttemptNumber = dlvAttemptCount d1, attStatusCode = StatusCode (peSendResult env),
      attResponseBody = ResponseBody (peSendResult env), attLatencyMs = LatencyMs (peSendResult env),
      attError = Error (peSendResult env), attCreatedAt = peNow env\<rparr>"
  define s1 where "s1 = (case CreateAttempt (peCreateAttemptFault env) s a of
      Inl err \<Rightarrow> s | Inr s' \<Rightarrow> s')"
  define fin where "fin =
     (case Process_classify m sched (peRetryNow env) (peSendResult env) d1 of
        None \<Rightarrow> Panic s1
      | Some d' \<Rightarrow> (case UpdateDelivery (peUpdateFault env) (peUpdateNow env) s1 d' of
                     Inl err \<Rightarrow> Return s1 | Inr s2 \<Rightarrow> Return s2))"
  have s1: "deliveries s1 = deliveries s"
    by (simp add: s1_def CreateAttempt_def)
  have P: "Process m sched env s d = Return s \<or> Process m sched env s d = fin"
    unfolding Process_def fin_def s1_def a_def d1_def Let_def
    by (simp split: sum.split option.split)
  have "\<forall>r \<in> set (deliveries (store_of fin)). delivery_inv b m r"
  proof (cases "Process_classify m sched (peRetryNow env) (peSendResult env) d1")
    case None
    then show ?thesis using assms(1) s1 by (simp add: fin_def)
  next
    case (Some d')
    then have ok: "delivery_inv b m d'"
      unfolding d1_def using assms(2,3) by (rule Process_classify_inv)
    show ?thesis
    proof (cases "UpdateDelivery (peUpdateFault env) (peUpdateNow env) s1 d'")
      case (Inl e)
      then show ?thesis using Some assms(1) s1 by (simp add: fin_def)
    next
      case (Inr s2)
      then show ?thesis
        using Some UpdateDelivery_inv [OF Inr ok] assms(1) s1 by (simp add: fin_def)
    qed
  qed
  with P assms(1) show ?thesis by auto
qed

lemma Retry_loop_inv:
  "Retry_loop env i ds n s = (k, s') \<Longrightarrow> \<forall>r \<in> set (deliveries s). delivery_inv True m r
    \<Longrightarrow> \<forall>r \<in> set (deliveries s'). delivery_inv True m r"
proof (induction ds arbitrary: i n s)
  case Nil
  then show ?case by simp
next
  case (Cons d ds)
  show ?case
  proof (cases "dlvStatus d = DeliveryFailed \<and> \<not> reUpdateFault env i")
    case True
    let ?d = "d\<lparr>dlvStatus := DeliveryRetrying, dlvNextRetryAt := Some (reNow env)\<rparr>"
    obtain s1 where s1: "UpdateDelivery (reUpdateFault env i) (reUpdateNow env i) s ?d = Inr s1"
      using True by (simp add: UpdateDelivery_def)
    have "delivery_inv True m ?d" by (simp add: delivery_inv_def)
    then have "\<forall>r \<in> set (deliveries s1). delivery_inv True m r"
      using UpdateDelivery_inv [OF s1] Cons.prems(2) by blast
    moreover have "Retry_loop env (Suc i) ds (Suc n) s1 = (k, s')"
      using Cons.prems(1) True s1 by simp
    ultimately show ?thesis using Cons.IH by blast
  next
    case False
    then have "Retry_loop env (Suc i) ds n s = (k, s')"
      using Cons.prems(1) by (auto simp: UpdateDelivery_def split: if_splits)
    then show ?thesis using Cons.IH Cons.prems(2) by blast
  qed
qed

lemma Retry_inv:
  "Retry env s ident = (resp, s') \<Longrightarrow> \<forall>r \<in> set (deliveries s). delivery_inv True m r
    \<Longrightarrow> \<forall>r \<in> set (deliveries s'). delivery_inv True m r"
  by (auto simp: Retry_def split: sum.splits option.splits prod.splits dest: Retry_loop_inv)

lemma cascade_deliveries: "set (deliveries (cascade s)) \<subseteq> set (deliveries s)"
  by (auto simp: cascade_def Let_def)

lemma GetPendingDeliveries_member:
  "GetPendingDeliveries f tie s now limit = Inr ds \<Longrightarrow> d \<in> set ds
    \<Longrightarrow> d \<in> set (deliveries s) \<and> (dlvStatus d = DeliveryPending \<or> dlvStatus d = DeliveryRetrying)"
  by (auto simp: GetPendingDeliveries_def Let_def due_def split: if_splits dest: in_set_takeD)

lemma reachable_inv:
  "reachable b m sched s \<Longrightarrow> \<forall>r \<in> set (deliveries s). delivery_inv b m r"
proof (induction rule: reachable.induct)
  case r_init
  show ?case by simp
next
  case (r_send s decode env app body resp s')
  then show ?case using Send_inv by blast
next
  case (r_process tie s0 now limit ds d s s' env)
  from GetPendingDeliveries_member [OF r_process.hyps(2,3)] r_process.IH(1)
  have "delivery_inv b m d" "dlvStatus d = DeliveryPending \<or> dlvStatus d = DeliveryRetrying"
    by blast+
  with r_process.IH(2) r_process.hyps(5) show ?case using Process_inv by blast
next
  case (r_retry s env ident resp s')
  from r_retry.hyps(1) have "b = True" by simp
  with r_retry.hyps(3) r_retry.IH show ?case using Retry_inv by blast
next
  case (r_create_endpoint s ep s')
  then show ?case by (auto simp: CreateEndpoint_def)
next
  case (r_update_endpoint s now ep s')
  then show ?case by (auto simp: UpdateEndpoint_def)
next
  case (r_toggle_endpoint s now ident active s')
  then show ?case by (auto simp: ToggleEndpoint_def)
next
  case (r_delete_endpoint s ident s')
  then show ?case using cascade_deliveries by (fastforce simp: DeleteEndpoint_def)
next
  case (r_delete_application s ident s')
  then show ?case using cascade_deliveries by (fastforce simp: DeleteApplication_def)
qed

text \<open>
  C5 (as the code has it).  In every store that the operations can produce (ingest,
  worker processing with possibly stale copies, manual retry, endpoint and application
  changes) a delivery in status \<open>failed\<close> has no next retry and an attempt count of at
  least \<open>maxAttempts\<close>; the count equals \<open>maxAttempts\<close> as long as no manual retry is
  among the operations and \<open>maxAttempts\<close> is at least one.
\<close>

theorem failed_delivery_state:
  assumes "reachable manual maxAttempts retrySchedule s"
      and "d \<in> set (deliveries s)" and "dlvStatus d = DeliveryFailed"
  shows "dlvNextRetryAt d = None \<and> maxAttempts \<le> dlvAttemptCount d
     \<and> (\<not> manual \<and> 1 \<le> maxAttempts \<longrightarrow> dlvAttemptCount d = maxAttempts)"
  using reachable_inv [OF assms(1)] assms(2,3) by (auto simp: delivery_inv_def)

theorem failed_delivery_state_witness:
  "reachable False 2 [1000000000]
     (ex_store (ex_dlv DeliveryFailed 2 None 1000000004)
        [ex_att ''att_1'' 1 500 3, ex_att ''att_2'' 2 500 1000000004])
   \<and> dlvStatus (ex_dlv DeliveryFailed 2 None 1000000004) = DeliveryFailed
   \<and> dlvNextRetryAt (ex_dlv DeliveryFailed 2 None 1000000004) = None
   \<and> dlvAttemptCount (ex_dlv DeliveryFailed 2 None 1000000004) = 2"
proof -
  have "ex_dlv DeliveryFailed 2 None 1000000004 \<in> set (deliveries
     (ex_store (ex_dlv DeliveryFailed 2 None 1000000004)
        [ex_att ''att_1'' 1 500 3, ex_att ''att_2'' 2 500 1000000004]))"
    by (simp add: ex_store_def)
  moreover have st: "dlvStatus (ex_dlv DeliveryFailed 2 None 1000000004) = DeliveryFailed"
    by (simp add: ex_dlv_def)
  ultimately show ?thesis
    using failed_delivery_state [OF ex_reach3 [of False]] ex_reach3 [of False] by auto
qed

text \<open>
  C5 as stated fails.  With \<open>maxAttempts = 2\<close> and a schedule of one second: the message
  is ingested, two attempts get HTTP 500 and the delivery is \<open>failed\<close> with two attempts;
  the manual retry puts it back to \<open>retrying\<close> and keeps the count; the third attempt
  gets HTTP 500 and the delivery is \<open>failed\<close> with attempt count 3.
\<close>

theorem failed_delivery_after_manual_retry_counterexample:
  "Retry ex_retry_env (ex_store (ex_dlv DeliveryFailed 2 None 1000000004)
        [ex_att ''att_1'' 1 500 3, ex_att ''att_2'' 2 500 1000000004]) ''msg_1''
     = (WriteJSON 200 1, ex_store (ex_dlv DeliveryRetrying 2 (Some 20) 20)
        [ex_att ''att_1'' 1 500 3, ex_att ''att_2'' 2 500 1000000004])
   \<and> Process 2 [1000000000] (ex_env 500 ''att_3'' 1000000005)
        (ex_store (ex_dlv DeliveryRetrying 2 (Some 20) 20)
           [ex_att ''att_1'' 1 500 3, ex_att ''att_2'' 2 500 1000000004])
        (ex_dlv DeliveryRetrying 2 (Some 20) 20)
     = Return (ex_store (ex_dlv DeliveryFailed 3 None 1000000005)
        [ex_att ''att_1'' 1 500 3, ex_att ''att_2'' 2 500 1000000004,
         ex_att ''att_3'' 3 500 1000000005])
   \<and> reachable True 2 [1000000000]
       (ex_store (ex_dlv DeliveryFailed 3 None 1000000005)
          [ex_att ''att_1'' 1 500 3, ex_att ''att_2'' 2 500 1000000004,
           ex_att ''att_3'' 3 500 1000000005])
   \<and> deliveries (ex_store (ex_dlv DeliveryFailed 3 None 1000000005)
          [ex_att ''att_1'' 1 500 3, ex_att ''att_2'' 2 500 1000000004,
           ex_att ''att_3'' 3 500 1000000005])
       = [ex_dlv DeliveryFailed 3 None 1000000005]
   \<and> dlvStatus (ex_dlv DeliveryFailed 3 None 1000000005) = DeliveryFailed
   \<and> dlvAttemptCount (ex_dlv DeliveryFailed 3 None 1000000005) = 3
   \<and> dlvAttemptCount (ex_dlv DeliveryFailed 3 None 1000000005) \<noteq> 2"
  using ex_retry ex_process3 ex_reach5 by (simp add: ex_store_def ex_dlv_def)


subsection \<open>Fan-out on ingest\<close>

lemma Send_loop_Some:
  "Send_loop env msg i eps ds s = (Some ds', s')
    \<Longrightarrow> ds' = ds @ Send_rows env msg i eps
        \<and> s' = s\<lparr>deliveries := deliveries s @ Send_rows env msg i eps\<rparr>"
proof (induction eps arbitrary: i ds s)
  case Nil
  then show ?case by simp
next
  case (Cons ep eps)
  from Cons.prems have nf: "\<not> seCreateDeliveryFault env i"
    by (auto simp: CreateDelivery_def Let_def split: if_splits)
  let ?d = "Send_delivery env msg i ep"
  from Cons.prems nf
  have "Send_loop env msg (Suc i) eps (ds @ [?d]) (s\<lparr>deliveries := deliveries s @ [?d]\<rparr>)
      = (Some ds', s')"
    by (simp add: CreateDelivery_def Let_def)
  from Cons.IH [OF this] show ?case by simp
qed

lemma Send_loop_fault:
  "k < length eps \<Longrightarrow> \<forall>j<k. \<not> seCreateDeliveryFault env (i + j)
    \<Longrightarrow> seCreateDeliveryFault env (i + k)
    \<Longrightarrow> Send_loop env msg i eps ds s
          = (None, s\<lparr>deliveries := deliveries s @ Send_rows env msg i (take k eps)\<rparr>)"
proof (induction eps arbitrary: i k ds s)
  case Nil
  then show ?case by simp
next
  case (Cons ep eps)
  show ?case
  proof (cases k)
    case 0
    with Cons.prems show ?thesis by (simp add: CreateDelivery_def Let_def)
  next
    case (Suc k')
    with Cons.prems have nf: "\<not> seCreateDeliveryFault env i" by force
    have a: "k' < length eps" using Suc Cons.prems(1) by simp
    have b: "\<forall>j<k'. \<not> seCreateDeliveryFault env (Suc i + j)"
      using Cons.prems(2) Suc by (metis Suc_less_eq add_Suc_shift)
    have c: "seCreateDeliveryFault env (Suc i + k')"
      using Cons.prems(3) Suc by simp
    show ?thesis
      using Cons.IH [OF a b c] nf Suc by (simp add: CreateDelivery_def Let_def)
  qed
qed

lemma Send_rows_props:
  "map dlvEndpointID (Send_rows env msg i eps) = map epID eps
   \<and> length (Send_rows env msg i eps) = length eps
   \<and> (\<forall>d \<in> set (Send_rows env msg i eps).
         dlvMessageID d = msgID msg \<and> dlvStatus d = DeliveryPending
         \<and> dlvAttemptCount d = 0 \<and> dlvNextRetryAt d = None)"
  by (induction eps arbitrary: i) (auto simp: Send_delivery_def)

lemma GetEndpointsByEventType_mset:
  "GetEndpointsByEventType f tie s app e = Inr eps \<Longrightarrow>
     mset eps = mset (filter (\<lambda>ep. epAppID ep = app \<and> epActive ep
                        \<and> matchesEventType (elems (epEventTypes ep)) e) (endpoints s))"
  by (auto simp: GetEndpointsByEventType_def mset_filter filter_filter_mset conj_commute
        conj_left_commute split: if_splits intro: filter_mset_cong)

lemma GetEndpointsByEventType_messages [simp]:
  "GetEndpointsByEventType f tie (s\<lparr>messages := ms\<rparr>) app e
     = GetEndpointsByEventType f tie s app e"
  by (simp add: GetEndpointsByEventType_def)

text \<open>
  C6.  When \<open>Send\<close> accepts a message (answer 202), the endpoints it fans out to are,
  counted with multiplicity, the endpoint rows of the owning application that are active
  and whose subscription list matches the event type (\<open>matchesEventType\<close>); one delivery
  row is appended per such endpoint, in status \<open>pending\<close> with attempt count 0 and no next
  retry; the answer carries their number; the message row is appended and no attempt is
  recorded.
\<close>

theorem Send_fanout:
  assumes "Send decode env s app body = (WriteJSON 202 (msg, n), s')"
  shows "\<exists>a eps. app = Some a
     \<and> GetEndpointsByEventType False (seEndpointTie env) s (appID a) (msgEventType msg) = Inr eps
     \<and> mset eps = mset (filter (\<lambda>ep. epAppID ep = appID a \<and> epActive ep
                        \<and> matchesEventType (elems (epEventTypes ep)) (msgEventType msg))
                      (endpoints s))
     \<and> n = length eps
     \<and> messages s' = messages s @ [msg]
     \<and> deliveries s' = deliveries s @ Send_rows env msg 0 eps
     \<and> map dlvEndpointID (Send_rows env msg 0 eps) = map epID eps
     \<and> (\<forall>d \<in> set (Send_rows env msg 0 eps).
           dlvMessageID d = msgID msg \<and> dlvStatus d = DeliveryPending
           \<and> dlvAttemptCount d = 0 \<and> dlvNextRetryAt d = None)
     \<and> attempts s' = attempts s
     \<and> endpoints s' = endpoints s"
proof -
  from assms obtain a where a: "app = Some a"
    by (cases app) (simp_all add: Send_def)
  from assms a obtain req where req: "decode (take maxPayloadSize body) = Some req"
    by (cases "decode (take maxPayloadSize body)") (simp_all add: Send_def)
  define m where "m = \<lparr>msgID = seMessageID env, msgAppID = appID a,
      msgEventType = EventType req, msgPayload = Payload req, msgCreatedAt = seNow env\<rparr>"
  define s1 where "s1 = s\<lparr>messages := messages s @ [m]\<rparr>"
  from assms a req have ok: "EventType req \<noteq> []" "Payload req \<noteq> []"
      "\<not> seCreateMessageFault env" "\<not> seGetEndpointsFault env"
    by (auto simp: Send_def Let_def CreateMessage_def GetEndpointsByEventType_def
          split: if_splits sum.splits)
  obtain eps where eps:
    "GetEndpointsByEventType False (seEndpointTie env) s (appID a) (EventType req) = Inr eps"
    by (simp add: GetEndpointsByEventType_def)
  have "Send decode env s app body =
           (case Send_loop env m 0 eps [] s1 of
                 (None, s2) \<Rightarrow> (WriteError 500 ''failed to create delivery'', s2)
               | (Some ds, s2) \<Rightarrow> (WriteJSON 202 (m, length ds), s2))"
    unfolding m_def s1_def using a req ok eps
    by (simp add: Send_def Let_def CreateMessage_def)
  with assms
  have loop: "(case Send_loop env m 0 eps [] s1 of
                 (None, s2) \<Rightarrow> (WriteError 500 ''failed to create delivery'', s2)
               | (Some ds, s2) \<Rightarrow> (WriteJSON 202 (m, length ds), s2))
              = (WriteJSON 202 (msg, n), s')"
    by simp
  then obtain ds where ds: "Send_loop env m 0 eps [] s1 = (Some ds, s')" and mm: "m = msg"
      and n: "n = length ds"
    by (auto split: prod.splits option.splits)
  from Send_loop_Some [OF ds] have
    r: "ds = Send_rows env m 0 eps" "s' = s1\<lparr>deliveries := deliveries s1 @ Send_rows env m 0 eps\<rparr>"
    by simp_all
  have ev: "msgEventType m = EventType req"
    by (simp add: m_def)
  have st: "messages s' = messages s @ [m]" "deliveries s' = deliveries s @ Send_rows env m 0 eps"
      "attempts s' = attempts s" "endpoints s' = endpoints s"
    using r(2) by (simp_all add: s1_def)
  have len: "n = length eps"
    using n r(1) Send_rows_props [of env m 0 eps] by simp
  show ?thesis
    unfolding mm [symmetric] ev
    using a eps GetEndpointsByEventType_mset [OF eps] st len Send_rows_props [of env m 0 eps]
    by blast
qed

theorem Send_fanout_witness:
  "Send ex_decode ex_send_env ex_s0 (Some ex_app) ex_body
     = (WriteJSON 202 (ex_msg 2, 1), ex_store (ex_dlv DeliveryPending 0 None 2) [])
   \<and> deliveries (ex_store (ex_dlv DeliveryPending 0 None 2) [])
     = deliveries ex_s0 @ Send_rows ex_send_env (ex_msg 2) 0 [ex_ep]
   \<and> attempts (ex_store (ex_dlv DeliveryPending 0 None 2) []) = attempts ex_s0"
proof -
  from Send_fanout [OF ex_send] obtain eps where
    e: "GetEndpointsByEventType False (seEndpointTie ex_send_env) ex_s0 ''app_A''
          ''order.created'' = Inr eps"
    and d: "deliveries (ex_store (ex_dlv DeliveryPending 0 None 2) [])
             = deliveries ex_s0 @ Send_rows ex_send_env (ex_msg 2) 0 eps"
    and a: "attempts (ex_store (ex_dlv DeliveryPending 0 None 2) []) = attempts ex_s0"
    by (auto simp: ex_app_def ex_msg_def)
  have "GetEndpointsByEventType False (seEndpointTie ex_send_env) ex_s0 ''app_A''
          ''order.created'' = Inr [ex_ep]"
    by (simp add: GetEndpointsByEventType_def ex_defs match_defs)
  with e have "eps = [ex_ep]" by simp
  with d a ex_send show ?thesis by simp
qed

text \<open>
  C9.  Fan-out is not atomic.  Let the message be created and the matching endpoints be
  \<open>eps\<close>.  If the \<open>CreateDelivery\<close> for the endpoint at index \<open>k\<close> (counting from 0) is the
  first to fail, \<open>Send\<close> answers 500 \<open>failed to create delivery\<close>, and the store keeps the
  message row and the \<open>k\<close> delivery rows created for the endpoints before it.
\<close>

theorem Send_partial_fanout:
  assumes "decode (take maxPayloadSize body) = Some req"
      and "EventType req \<noteq> []" and "Payload req \<noteq> []"
      and "msg = \<lparr>msgID = seMessageID env, msgAppID = appID a, msgEventType = EventType req,
                  msgPayload = Payload req, msgCreatedAt = seNow env\<rparr>"
      and "\<not> seCreateMessageFault env" and "\<not> seGetEndpointsFault env"
      and "GetEndpointsByEventType False (seEndpointTie env) s (appID a) (EventType req) = Inr eps"
      and "k < length eps"
      and "\<forall>j<k. \<not> seCreateDeliveryFault env j"
      and "seCreateDeliveryFault env k"
  shows "Send decode env s (Some a) body =
           (WriteError 500 ''failed to create delivery'',
            s\<lparr>messages := messages s @ [msg],
              deliveries := deliveries s @ Send_rows env msg 0 (take k eps)\<rparr>)
         \<and> length (Send_rows env msg 0 (take k eps)) = k"
proof -
  have "Send_loop env msg 0 eps [] (s\<lparr>messages := messages s @ [msg]\<rparr>)
      = (None, (s\<lparr>messages := messages s @ [msg]\<rparr>)
                 \<lparr>deliveries := deliveries (s\<lparr>messages := messages s @ [msg]\<rparr>)
                     @ Send_rows env msg 0 (take k eps)\<rparr>)"
    using assms(8-10) by (intro Send_loop_fault) simp_all
  moreover have "length (Send_rows env msg 0 (take k eps)) = k"
    using Send_rows_props [of env msg 0 "take k eps"] assms(8) by simp
  ultimately show ?thesis
    unfolding assms(4) using assms(1-3,5-7)
    by (simp add: Send_def Let_def CreateMessage_def)
qed

theorem Send_partial_fanout_witness:
  "Send ex_decode ex_send_env' ex_s0' (Some ex_app) ex_body =
     (WriteError 500 ''failed to create delivery'',
      \<lparr>endpoints = [ex_ep, ex_ep2], messages = [ex_msg 6],
       deliveries = [\<lparr>dlvID = ''dlv_1'', dlvMessageID = ''msg_1'', dlvEndpointID = ''ep_2'',
                      dlvStatus = DeliveryPending, dlvAttemptCount = 0, dlvNextRetryAt = None,
                      dlvCreatedAt = 6, dlvUpdatedAt = 6\<rparr>],
       attempts = []\<rparr>)"
proof -
  have 1: "ex_decode (take maxPayloadSize ex_body)
      = Some \<lparr>EventType = ''order.created'', Payload = ''{\"id\":\"1\"}''\<rparr>"
    by (simp add: ex_decode_def ex_body_def maxPayloadSize_def)
  have 2: "ex_msg 6 = \<lparr>msgID = seMessageID ex_send_env', msgAppID = appID ex_app,
      msgEventType = EventType \<lparr>EventType = ''order.created'', Payload = ''{\"id\":\"1\"}''\<rparr>,
      msgPayload = Payload \<lparr>EventType = ''order.created'', Payload = ''{\"id\":\"1\"}''\<rparr>,
      msgCreatedAt = seNow ex_send_env'\<rparr>"
    by (simp add: ex_msg_def ex_send_env'_def ex_app_def)
  have 3: "GetEndpointsByEventType False (seEndpointTie ex_send_env') ex_s0' (appID ex_app)
      (EventType \<lparr>EventType = ''order.created'', Payload = ''{\"id\":\"1\"}''\<rparr>) = Inr [ex_ep2, ex_ep]"
    using ex_endpoints' by (simp add: ex_app_def)
  note t = Send_partial_fanout [where decode = ex_decode and body = ex_body
      and req = "\<lparr>EventType = ''order.created'', Payload = ''{\"id\":\"1\"}''\<rparr>"
      and msg = "ex_msg 6" and env = ex_send_env' and a = ex_app and s = ex_s0'
      and eps = "[ex_ep2, ex_ep]" and k = 1]
  have "Send ex_decode ex_send_env' ex_s0' (Some ex_app) ex_body =
           (WriteError 500 ''failed to create delivery'',
            ex_s0'\<lparr>messages := messages ex_s0' @ [ex_msg 6],
              deliveries := deliveries ex_s0'
                @ Send_rows ex_send_env' (ex_msg 6) 0 (take 1 [ex_ep2, ex_ep])\<rparr>)"
    by (rule t [THEN conjunct1]) (use 1 2 3 in \<open>simp_all add: ex_send_env'_def\<close>)
  then show ?thesis
    by (simp add: ex_s0'_def Send_delivery_def ex_send_env'_def ex_msg_def ex_ep2_def)
qed

subsection \<open>The due-delivery query\<close>

lemma take_sorted_rest:
  fixes f :: "'a \<Rightarrow> int"
  assumes "sorted (map f rows)" "d \<in> set rows" "d \<notin> set (take n rows)"
  shows "length (take n rows) = n \<and> (\<forall>r \<in> set (take n rows). f r \<le> f d)"
proof -
  from assms(2,3) have d: "d \<in> set (drop n rows)"
    by (metis Un_iff append_take_drop_id set_append)
  then have "n < length rows"
    by (metis drop_all empty_iff empty_set not_le_imp_less)
  then have len: "length (take n rows) = n" by simp
  have "sorted (map f (take n rows) @ map f (drop n rows))"
    using assms(1) by (metis append_take_drop_id map_append)
  then have "\<forall>x \<in> set (map f (take n rows)). \<forall>y \<in> set (map f (drop n rows)). x \<le> y"
    by (simp add: sorted_append)
  with d len show ?thesis by auto
qed

lemma ex_queue_b:
  "GetPendingDeliveries False ex_tie_b ex_queue 20 2
     = Inr [ex_q ''dlv_c'' DeliveryPending None 1, ex_q ''dlv_b'' DeliveryRetrying (Some 10) 2]"
  by (simp add: GetPendingDeliveries_def due_def ex_queue_def ex_q_def ex_tie_b_def)

lemma ex_queue_0:
  "GetPendingDeliveries False ex_tie_0 ex_queue 20 2
     = Inr [ex_q ''dlv_c'' DeliveryPending None 1, ex_q ''dlv_a'' DeliveryPending None 2]"
  by (simp add: GetPendingDeliveries_def due_def ex_queue_def ex_q_def ex_tie_0_def)

text \<open>
  C7.  For every store, instant, limit and order of rows created together,
  \<open>GetPendingDeliveries\<close> returns at most \<open>limit\<close> rows (for a limit that is a number of
  rows, \<open>limit \<ge> 0\<close>); each is a delivery row in status \<open>pending\<close> or \<open>retrying\<close> whose
  next retry is null or not after \<open>now\<close>, returned no more often than it is stored; the
  list is in ascending order of creation time; and a due row that is not returned is left
  out only because of the limit: the list is then full and none of its rows was created
  later than the row left out.
\<close>

theorem GetPendingDeliveries_due:
  assumes "GetPendingDeliveries False tie s now limit = Inr ds"
  shows "(0 \<le> limit \<longrightarrow> int (length ds) \<le> limit)
     \<and> (\<forall>d \<in> set ds. d \<in> set (deliveries s)
           \<and> (dlvStatus d = DeliveryPending \<or> dlvStatus d = DeliveryRetrying)
           \<and> (dlvNextRetryAt d = None \<or> (\<exists>t. dlvNextRetryAt d = Some t \<and> t \<le> now)))
     \<and> mset ds \<subseteq># mset (filter (due now) (deliveries s))
     \<and> sorted (map dlvCreatedAt ds)
     \<and> (\<forall>d \<in> set (deliveries s). due now d \<and> d \<notin> set ds \<longrightarrow>
           0 \<le> limit \<and> length ds = nat limit
           \<and> (\<forall>r \<in> set ds. dlvCreatedAt r \<le> dlvCreatedAt d))"
proof -
  define rows where
    "rows = sort_key dlvCreatedAt (sort_key tie (filter (due now) (deliveries s)))"
  have ds: "ds = (if limit < 0 then rows else take (nat limit) rows)"
    using assms by (auto simp: GetPendingDeliveries_def rows_def Let_def)
  have srt: "sorted (map dlvCreatedAt rows)"
    by (simp add: rows_def)
  have ms: "mset rows = mset (filter (due now) (deliveries s))"
    by (simp add: rows_def)
  have st: "set rows = {d \<in> set (deliveries s). due now d}"
    by (simp add: rows_def)
  have sub: "set ds \<subseteq> set rows"
    by (auto simp: ds dest: in_set_takeD)
  have 1: "0 \<le> limit \<longrightarrow> int (length ds) \<le> limit"
    by (auto simp: ds min_def)
  have 2: "\<forall>d \<in> set ds. d \<in> set (deliveries s)
           \<and> (dlvStatus d = DeliveryPending \<or> dlvStatus d = DeliveryRetrying)
           \<and> (dlvNextRetryAt d = None \<or> (\<exists>t. dlvNextRetryAt d = Some t \<and> t \<le> now))"
  proof
    fix d assume "d \<in> set ds"
    then have "d \<in> set rows" using sub by blast
    then show "d \<in> set (deliveries s)
           \<and> (dlvStatus d = DeliveryPending \<or> dlvStatus d = DeliveryRetrying)
           \<and> (dlvNextRetryAt d = None \<or> (\<exists>t. dlvNextRetryAt d = Some t \<and> t \<le> now))"
      unfolding st by (auto simp: due_def split: option.splits)
  qed
  have "mset (take (nat limit) rows) \<subseteq># mset rows"
    by (metis append_take_drop_id mset_append mset_subset_eq_add_left)
  then have 3: "mset ds \<subseteq># mset (filter (due now) (deliveries s))"
    using ms by (simp add: ds)
  have 4: "sorted (map dlvCreatedAt ds)"
    unfolding ds using srt by (simp add: sorted_wrt_take take_map [symmetric] del: take_map)
  have 5: "\<forall>d \<in> set (deliveries s). due now d \<and> d \<notin> set ds \<longrightarrow>
           0 \<le> limit \<and> length ds = nat limit
           \<and> (\<forall>r \<in> set ds. dlvCreatedAt r \<le> dlvCreatedAt d)"
  proof (intro ballI impI)
    fix d assume d: "d \<in> set (deliveries s)" and nd: "due now d \<and> d \<notin> set ds"
    then have inrows: "d \<in> set rows" by (simp add: st)
    have lim: "0 \<le> limit"
    proof (rule ccontr)
      assume "\<not> 0 \<le> limit"
      then have "ds = rows" by (simp add: ds)
      with inrows nd show False by simp
    qed
    then have eq: "ds = take (nat limit) rows" by (simp add: ds)
    with nd have "d \<notin> set (take (nat limit) rows)" by simp
    from take_sorted_rest [OF srt inrows this] lim
    show "0 \<le> limit \<and> length ds = nat limit
           \<and> (\<forall>r \<in> set ds. dlvCreatedAt r \<le> dlvCreatedAt d)"
      by (simp add: eq)
  qed
  from 1 2 3 4 5 show ?thesis by blast
qed

theorem GetPendingDeliveries_due_witness:
  "GetPendingDeliveries False ex_tie_b ex_queue 20 2
     = Inr [ex_q ''dlv_c'' DeliveryPending None 1, ex_q ''dlv_b'' DeliveryRetrying (Some 10) 2]
   \<and> int (length [ex_q ''dlv_c'' DeliveryPending None 1,
                   ex_q ''dlv_b'' DeliveryRetrying (Some 10) 2]) \<le> 2
   \<and> sorted (map dlvCreatedAt [ex_q ''dlv_c'' DeliveryPending None 1,
                                ex_q ''dlv_b'' DeliveryRetrying (Some 10) 2])
   \<and> due 20 (ex_q ''dlv_d'' DeliveryPending None 5)
   \<and> dlvCreatedAt (ex_q ''dlv_b'' DeliveryRetrying (Some 10) 2)
        \<le> dlvCreatedAt (ex_q ''dlv_d'' DeliveryPending None 5)
   \<and> due 20 (ex_q ''dlv_a'' DeliveryPending None 2)
   \<and> dlvCreatedAt (ex_q ''dlv_b'' DeliveryRetrying (Some 10) 2)
        \<le> dlvCreatedAt (ex_q ''dlv_a'' DeliveryPending None 2)
   \<and> GetPendingDeliveries False ex_tie_0 ex_queue 20 2
     = Inr [ex_q ''dlv_c'' DeliveryPending None 1, ex_q ''dlv_a'' DeliveryPending None 2]"
proof -
  note t = GetPendingDeliveries_due [OF ex_queue_b]
  have a: "ex_q ''dlv_a'' DeliveryPending None 2 \<in> set (deliveries ex_queue)"
    and d: "ex_q ''dlv_d'' DeliveryPending None 5 \<in> set (deliveries ex_queue)"
    by (simp_all add: ex_queue_def)
  have da: "due 20 (ex_q ''dlv_a'' DeliveryPending None 2)"
    and dd: "due 20 (ex_q ''dlv_d'' DeliveryPending None 5)"
    by (simp_all add: due_def ex_q_def)
  have na: "ex_q ''dlv_a'' DeliveryPending None 2
      \<notin> set [ex_q ''dlv_c'' DeliveryPending None 1, ex_q ''dlv_b'' DeliveryRetrying (Some 10) 2]"
    and nd: "ex_q ''dlv_d'' DeliveryPending None 5
      \<notin> set [ex_q ''dlv_c'' DeliveryPending None 1, ex_q ''dlv_b'' DeliveryRetrying (Some 10) 2]"
    by (simp_all add: ex_q_def)
  from t a da na have "dlvCreatedAt (ex_q ''dlv_b'' DeliveryRetrying (Some 10) 2)
        \<le> dlvCreatedAt (ex_q ''dlv_a'' DeliveryPending None 2)"
    by (meson list.set_intros)
  moreover from t d dd nd have "dlvCreatedAt (ex_q ''dlv_b'' DeliveryRetrying (Some 10) 2)
        \<le> dlvCreatedAt (ex_q ''dlv_d'' DeliveryPending None 5)"
    by (meson list.set_intros)
  moreover from t have "int (length [ex_q ''dlv_c'' DeliveryPending None 1,
                   ex_q ''dlv_b'' DeliveryRetrying (Some 10) 2]) \<le> 2"
    and "sorted (map dlvCreatedAt [ex_q ''dlv_c'' DeliveryPending None 1,
                                ex_q ''dlv_b'' DeliveryRetrying (Some 10) 2])"
    by simp_all
  ultimately show ?thesis using ex_queue_b ex_queue_0 da dd by blast
qed

subsection \<open>The size limit of ingest\<close>

lemma length_ex_fill [simp]: "length (ex_fill n) = n"
  by (simp add: ex_fill_def)

lemma length_ex_big_payload: "length ex_big_payload = 262144"
  by (simp add: ex_big_payload_def)

lemma length_ex_big_body: "length ex_big_body = 262173"
  by (simp add: ex_big_body_def length_ex_big_payload)

lemma length_ex_fit_payload: "length ex_fit_payload = 262115"
  by (simp add: ex_fit_payload_def)

lemma length_ex_fit_body: "length ex_fit_body = 262144"
  by (simp add: ex_fit_body_def length_ex_fit_payload)

lemma ex_fit_body_whole: "take maxPayloadSize ex_fit_body = ex_fit_body"
  by (simp add: length_ex_fit_body maxPayloadSize_def)

lemma ex_fit_payload_nonempty: "ex_fit_payload \<noteq> []"
  by (simp add: ex_fit_payload_def)

lemma ex_fit_decode_slices:
  "\<forall>b r. ex_fit_decode b = Some r \<longrightarrow> length (Payload r) < length b"
  by (auto simp: ex_fit_decode_def length_ex_fit_body length_ex_fit_payload split: if_splits)

lemma ex_fit_send:
  "Send ex_fit_decode ex_send_env ex_s0 (Some ex_app) ex_fit_body
     = (WriteJSON 202 (\<lparr>msgID = ''msg_1'', msgAppID = ''app_A'', msgEventType = ''x'',
                          msgPayload = ex_fit_payload, msgCreatedAt = 2\<rparr>, 0),
        \<lparr>endpoints = [ex_ep],
         messages = [\<lparr>msgID = ''msg_1'', msgAppID = ''app_A'', msgEventType = ''x'',
                       msgPayload = ex_fit_payload, msgCreatedAt = 2\<rparr>],
         deliveries = [], attempts = []\<rparr>)"
  by (simp add: Send_def ex_fit_body_whole ex_fit_decode_def ex_fit_payload_nonempty Let_def
      CreateMessage_def GetEndpointsByEventType_def match_defs ex_send_env_def ex_s0_def
      ex_app_def ex_ep_def)

lemma Send_loop_no_fault:
  "\<forall>i. \<not> seCreateDeliveryFault env i \<Longrightarrow> \<exists>ds s'. Send_loop env msg i eps acc s = (Some ds, s')"
  by (induction eps arbitrary: i acc s) (simp_all add: CreateDelivery_def Let_def)

text \<open>
  C8 (as the code has it).  The limit of 262144 bytes is on the request body, not on the
  payload: \<open>Send\<close> depends on the body only through its first 262144 bytes, and a body of
  at most 262144 bytes is decoded whole (it is accepted when it decodes to a request with
  event type and payload and the store does not fail).  The decoder hands out the payload
  as the raw bytes of the value of \<open>payload\<close> in the JSON object it read, so the payload
  is shorter than what the decoder read.  For every such decoder, every message that
  \<open>Send\<close> persists or accepts has a payload of fewer than 262144 bytes: a payload of
  262144 bytes or more is rejected; and when the decoder fails on the first 262144 bytes
  the ingest is rejected with 400 and nothing is persisted.
\<close>

theorem Send_payload_bound:
  assumes "\<forall>b r. decode b = Some r \<longrightarrow> length (Payload r) < length b"
      and "Send decode env s app body = (resp, s')"
  shows "(\<forall>m \<in> set (messages s'). m \<in> set (messages s) \<or> length (msgPayload m) < 262144)
     \<and> (\<forall>msg n. resp = WriteJSON 202 (msg, n) \<longrightarrow> length (msgPayload msg) < 262144)
     \<and> (\<forall>req. decode (take maxPayloadSize body) = Some req \<longrightarrow> length (Payload req) < 262144)
     \<and> (decode (take maxPayloadSize body) = None \<longrightarrow>
          s' = s \<and> (app = None \<or> resp = WriteError 400 ''invalid request body''))
     \<and> (\<forall>body'. take 262144 body' = take 262144 body \<longrightarrow>
          Send decode env s app body' = (resp, s'))
     \<and> (\<forall>a req. length body \<le> 262144 \<and> app = Some a \<and> decode body = Some req
            \<and> EventType req \<noteq> [] \<and> Payload req \<noteq> []
            \<and> \<not> seCreateMessageFault env \<and> \<not> seGetEndpointsFault env
            \<and> (\<forall>i. \<not> seCreateDeliveryFault env i)
          \<longrightarrow> (\<exists>n. resp = WriteJSON 202
                  (\<lparr>msgID = seMessageID env, msgAppID = appID a, msgEventType = EventType req,
                    msgPayload = Payload req, msgCreatedAt = seNow env\<rparr>, n)))"
proof -
  have bound: "length (Payload r) < 262144" if "decode (take maxPayloadSize body) = Some r" for r
  proof -
    have "length (Payload r) < length (take maxPayloadSize body)"
      using assms(1) that by blast
    also have "\<dots> \<le> 262144" by (simp add: maxPayloadSize_def)
    finally show ?thesis .
  qed
  have loop: "messages s2 = messages s1"
    if "Send_loop env m i eps ds s1 = (r, s2)" for m i eps ds s1 r s2
    using that
    by (induction eps arbitrary: i ds s1) (auto simp: CreateDelivery_def Let_def split: if_splits)
  have 1: "\<forall>m \<in> set (messages s'). m \<in> set (messages s) \<or> length (msgPayload m) < 262144"
    using assms(2)
    by (auto simp: Send_def Let_def CreateMessage_def GetEndpointsByEventType_def
          split: option.splits if_splits sum.splits prod.splits dest!: loop bound)
  have 2: "\<forall>msg n. resp = WriteJSON 202 (msg, n) \<longrightarrow> length (msgPayload msg) < 262144"
    using assms(2)
    by (auto simp: Send_def Let_def CreateMessage_def GetEndpointsByEventType_def
          split: option.splits if_splits sum.splits prod.splits dest!: bound)
  have 3: "decode (take maxPayloadSize body) = None \<longrightarrow>
          s' = s \<and> (app = None \<or> resp = WriteError 400 ''invalid request body'')"
    using assms(2) by (auto simp: Send_def split: option.splits)
  have 4: "\<forall>body'. take 262144 body' = take 262144 body \<longrightarrow>
          Send decode env s app body' = (resp, s')"
  proof (intro allI impI)
    fix body' :: string
    assume "take 262144 body' = take 262144 body"
    then have "take maxPayloadSize body' = take maxPayloadSize body"
      by (simp add: maxPayloadSize_def)
    then have "Send decode env s app body' = Send decode env s app body"
      unfolding Send_def by (rule arg_cong)
    with assms(2) show "Send decode env s app body' = (resp, s')" by simp
  qed
  have 5: "\<exists>n. resp = WriteJSON 202
                  (\<lparr>msgID = seMessageID env, msgAppID = appID a, msgEventType = EventType req,
                    msgPayload = Payload req, msgCreatedAt = seNow env\<rparr>, n)"
    if h: "length body \<le> 262144" "app = Some a" "decode body = Some req"
       "EventType req \<noteq> []" "Payload req \<noteq> []"
       "\<not> seCreateMessageFault env" "\<not> seGetEndpointsFault env"
       "\<forall>i. \<not> seCreateDeliveryFault env i"
    for a req
  proof -
    define m where "m = \<lparr>msgID = seMessageID env, msgAppID = appID a,
      msgEventType = EventType req, msgPayload = Payload req, msgCreatedAt = seNow env\<rparr>"
    have whole: "take maxPayloadSize body = body"
      using h(1) by (simp add: maxPayloadSize_def)
    obtain eps where eps: "GetEndpointsByEventType False (seEndpointTie env)
        (s\<lparr>messages := messages s @ [m]\<rparr>) (appID a) (EventType req) = Inr eps"
      by (simp add: GetEndpointsByEventType_def)
    obtain ds s2 where l: "Send_loop env m 0 eps [] (s\<lparr>messages := messages s @ [m]\<rparr>) = (Some ds, s2)"
      using Send_loop_no_fault [OF h(8)] by blast
    have "Send decode env s app body = (WriteJSON 202 (m, length ds), s2)"
      using h(2-7) eps l unfolding m_def
      by (simp add: Send_def whole Let_def CreateMessage_def)
    with assms(2) show ?thesis by (auto simp: m_def)
  qed
  from 1 2 3 4 5 bound show ?thesis by blast
qed

theorem Send_payload_bound_witness:
  "length ex_fit_body = 262144
   \<and> Send ex_fit_decode ex_send_env ex_s0 (Some ex_app) ex_fit_body
     = (WriteJSON 202 (\<lparr>msgID = ''msg_1'', msgAppID = ''app_A'', msgEventType = ''x'',
                          msgPayload = ex_fit_payload, msgCreatedAt = 2\<rparr>, 0),
        \<lparr>endpoints = [ex_ep],
         messages = [\<lparr>msgID = ''msg_1'', msgAppID = ''app_A'', msgEventType = ''x'',
                       msgPayload = ex_fit_payload, msgCreatedAt = 2\<rparr>],
         deliveries = [], attempts = []\<rparr>)
   \<and> length ex_fit_payload = 262115
   \<and> length ex_fit_payload < 262144"
  using Send_payload_bound [OF ex_fit_decode_slices ex_fit_send] ex_fit_send
    length_ex_fit_body length_ex_fit_payload
  by simp

text \<open>
  C8 as stated fails: a payload of exactly 262144 bytes is rejected.  The body
  \<open>ex_big_body\<close> decodes to event type \<open>x\<close> and a payload of 262144 bytes, but \<open>Send\<close>
  lets the decoder read only its first 262144 bytes, where the object does not end: the
  answer is 400 and the store is unchanged.
\<close>

theorem Send_payload_262144_counterexample:
  "length ex_big_payload = 262144
   \<and> ex_big_decode ex_big_body = Some \<lparr>EventType = ''x'', Payload = ex_big_payload\<rparr>
   \<and> Send ex_big_decode ex_send_env ex_s0 (Some ex_app) ex_big_body
       = (WriteError 400 ''invalid request body'', ex_s0)"
  by (simp add: length_ex_big_payload length_ex_big_body maxPayloadSize_def ex_big_decode_def
      Send_def)

subsection \<open>Creating an endpoint\<close>

lemma charset_alphanumeric: "\<forall>c \<in> set charset. alphanumeric c"
  by (simp add: charset_def alphanumeric_def)

lemma distinct_charset: "distinct charset"
  by (simp add: charset_def)

lemma length_charset: "length charset = 62"
  by (simp add: charset_def)

lemma NewSecret_inj:
  assumes "NewSecret f = NewSecret g" and "\<forall>i<40. f i < 62" and "\<forall>i<40. g i < 62"
      and "i < 40"
  shows "f i = g i"
proof -
  from assms(1) have "map (\<lambda>i. charset ! f i) [0..<40] = map (\<lambda>i. charset ! g i) [0..<40]"
    by (simp add: NewSecret_def)
  then have "charset ! f i = charset ! g i"
    using assms(4) by (auto simp: map_eq_conv)
  moreover have "f i < length charset" "g i < length charset"
    using assms(2-4) by (simp_all add: length_charset)
  ultimately show ?thesis
    using distinct_charset by (simp add: nth_eq_iff_index_eq)
qed

lemma ex_secret: "NewSecret (\<lambda>i. i) = ''whsec_abcdefghijklmnopqrstuvwxyzABCDEFGHIJKLMN''"
  by code_simp

text \<open>
  C10.  Every endpoint that \<open>Create\<close> creates (answer 201) is appended to the endpoints
  with \<open>active = true\<close> and with the secret that \<open>NewSecret\<close> generates in this call from
  the draws of the random source (each below 62): \<open>whsec_\<close> followed by 40 alphanumeric
  characters, the \<open>i\<close>-th of them the character of the charset that the \<open>i\<close>-th draw
  selects, so that other draws give another secret.  The decoded request has no field
  for a secret or for \<open>active\<close>, so the body cannot set them; a \<open>nil\<close> list of event
  types is stored as the empty list.
\<close>

theorem Create_endpoint:
  assumes "Create decode parse env s app body = (WriteJSON 201 ep, s')"
      and "\<forall>i<40. ceDraw env i < 62"
  shows "epActive ep
     \<and> epSecret ep = NewSecret (ceDraw env)
     \<and> epSecret ep = ''whsec_'' @ map (\<lambda>i. charset ! ceDraw env i) [0..<40]
     \<and> (\<exists>cs. epSecret ep = ''whsec_'' @ cs \<and> length cs = 40 \<and> (\<forall>c \<in> set cs. alphanumeric c)
           \<and> (\<forall>i<40. cs ! i
                = ''abcdefghijklmnopqrstuvwxyzABCDEFGHIJKLMNOPQRSTUVWXYZ0123456789'' ! ceDraw env i))
     \<and> (\<forall>draw. (\<forall>i<40. draw i < 62) \<and> (\<exists>i<40. draw i \<noteq> ceDraw env i)
           \<longrightarrow> NewSecret draw \<noteq> epSecret ep)
     \<and> (\<exists>req. decode body = Some req \<and> epEventTypes ep = Some (elems (EventTypes req)))
     \<and> endpoints s' = endpoints s @ [ep]"
proof -
  from assms(1) obtain a where a: "app = Some a"
    by (cases app) (simp_all add: Create_def)
  from assms(1) a obtain req where req: "decode body = Some req"
    by (cases "decode body") (simp_all add: Create_def)
  from assms(1) a req have ep: "epActive ep" "epSecret ep = NewSecret (ceDraw env)"
     "epEventTypes ep = Some (elems (EventTypes req))" "endpoints s' = endpoints s @ [ep]"
    by (auto simp: Create_def Let_def CreateEndpoint_def elems_def
          split: if_splits option.splits sum.splits)
  define cs where "cs = map (\<lambda>i. charset ! ceDraw env i) [0..<40]"
  have sec: "epSecret ep = ''whsec_'' @ cs"
    by (simp add: ep(2) NewSecret_def cs_def)
  have "alphanumeric (charset ! ceDraw env i)" if "i < 40" for i
  proof -
    have "ceDraw env i < length charset"
      using assms(2) that by (simp add: length_charset)
    then have "charset ! ceDraw env i \<in> set charset" by (rule nth_mem)
    with charset_alphanumeric show ?thesis by blast
  qed
  then have al: "\<forall>c \<in> set cs. alphanumeric c"
    by (auto simp: cs_def)
  have len: "length cs = 40" by (simp add: cs_def)
  have nth: "\<forall>i<40. cs ! i
      = ''abcdefghijklmnopqrstuvwxyzABCDEFGHIJKLMNOPQRSTUVWXYZ0123456789'' ! ceDraw env i"
    by (simp add: cs_def charset_def)
  have fresh: "NewSecret draw \<noteq> epSecret ep"
    if "\<forall>i<40. draw i < 62" "\<exists>i<40. draw i \<noteq> ceDraw env i" for draw
    using NewSecret_inj [of draw "ceDraw env"] that assms(2) ep(2) by metis
  from ep req sec al len nth fresh show ?thesis
    unfolding cs_def by blast
qed

lemma ex_create:
  "Create ex_create_decode ex_parse ex_create_env
      \<lparr>endpoints = [], messages = [], deliveries = [], attempts = []\<rparr> (Some ex_app) ex_create_body
     = (WriteJSON 201 ex_created,
        \<lparr>endpoints = [ex_created], messages = [], deliveries = [], attempts = []\<rparr>)"
  by (simp add: Create_def Let_def CreateEndpoint_def ex_secret ex_create_body_def
      ex_create_decode_def ex_parse_def ex_create_env_def ex_created_def ex_app_def)

theorem Create_endpoint_witness:
  "Create ex_create_decode ex_parse ex_create_env
      \<lparr>endpoints = [], messages = [], deliveries = [], attempts = []\<rparr> (Some ex_app) ex_create_body
     = (WriteJSON 201 ex_created,
        \<lparr>endpoints = [ex_created], messages = [], deliveries = [], attempts = []\<rparr>)
   \<and> epActive ex_created
   \<and> epSecret ex_created = ''whsec_abcdefghijklmnopqrstuvwxyzABCDEFGHIJKLMN''
   \<and> epSecret ex_created = NewSecret (ceDraw ex_create_env)
   \<and> epEventTypes ex_created = Some []"
proof -
  have d: "\<forall>i<40. ceDraw ex_create_env i < 62"
    by (simp add: ex_create_env_def)
  have "epEventTypes ex_created = Some []"
    and "epSecret ex_created = ''whsec_abcdefghijklmnopqrstuvwxyzABCDEFGHIJKLMN''"
    by (simp_all add: ex_created_def)
  with Create_endpoint [OF ex_create d] ex_create show ?thesis by blast
qed

end
